theory Spec2Isabelle
  imports Complex_Main "HOL-Library.Product_Lexorder" "HOL-Library.Multiset"
begin

section \<open>Hotel management system: the multi-class task scheduler\<close>

text \<open>
  A shallow embedding of \<^verbatim>\<open>hotel_management_system.py\<close>: the \<^verbatim>\<open>Task\<close> dataclass, the
  \<^verbatim>\<open>HotelRoom\<close> class hierarchy, \<^verbatim>\<open>HotelScheduler\<close>, and of \<^verbatim>\<open>HotelManagementGUI\<close>
  the methods that write the scheduler or the flag of the simulation
  (\<^verbatim>\<open>start_simulation\<close>, \<^verbatim>\<open>stop_simulation\<close>, \<^verbatim>\<open>run_simulation\<close>,
  \<^verbatim>\<open>clear_all_tasks\<close>, \<^verbatim>\<open>on_algorithm_change\<close>, and the callers of
  \<^verbatim>\<open>HotelScheduler.add_task\<close>). \<^verbatim>\<open>run_simulation\<close> runs on a thread of its own beside
  the handlers of the main thread, so a run is an interleaving of the two. Widgets, labels
  and message boxes are presentation only and are left out.
\<close>

subsection \<open>The Task dataclass\<close>

text \<open>
  Python integers are unbounded, hence \<open>int\<close>. A \<^verbatim>\<open>datetime\<close> is a point on a
  linearly ordered time line; it is modelled as a number of microseconds. The three float
  constants of the charge computation and their products are dyadic rationals that a double
  represents exactly, so \<open>rat\<close> multiplication gives the value the float multiplication
  gives. The field \<^verbatim>\<open>id\<close> is called \<open>task_id\<close>.
\<close>

record task =
  task_id :: int
  room_number :: string
  room_class :: string
  task_type :: string
  priority :: int
  estimated_time :: int
  description :: string
  timestamp :: int
  status :: string
  assigned_staff :: string
  actual_time :: int
  service_charge :: rat

subsection \<open>HotelRoom and its three subclasses\<close>

text \<open>
  The abstract class with three concrete subclasses is a datatype of the three subclasses;
  each abstract method is a function by cases on it.
\<close>

datatype room_kind = EconomyRoom | MidRangeRoom | VIPRoom

fun get_room_class :: "room_kind \<Rightarrow> string" where
  "get_room_class EconomyRoom = ''Economy''"
| "get_room_class MidRangeRoom = ''Mid-Range''"
| "get_room_class VIPRoom = ''VIP''"

fun get_service_multiplier :: "room_kind \<Rightarrow> rat" where
  "get_service_multiplier EconomyRoom = 1"
| "get_service_multiplier MidRangeRoom = 3 / 2"
| "get_service_multiplier VIPRoom = 5 / 2"

fun get_priority_level :: "room_kind \<Rightarrow> int" where
  "get_priority_level EconomyRoom = 3"
| "get_priority_level MidRangeRoom = 2"
| "get_priority_level VIPRoom = 1"

fun get_base_service_charge :: "room_kind \<Rightarrow> rat" where
  "get_base_service_charge EconomyRoom = 10"
| "get_base_service_charge MidRangeRoom = 15"
| "get_base_service_charge VIPRoom = 25"

definition calculate_service_charge :: "room_kind \<Rightarrow> rat \<Rightarrow> rat" where
  "calculate_service_charge k base_charge = base_charge * get_service_multiplier k"

fun kind_amenities :: "room_kind \<Rightarrow> string list" where
  "kind_amenities EconomyRoom =
     [''Basic TV'', ''Wi-Fi'', ''Air Conditioning'', ''Private Bathroom'']"
| "kind_amenities MidRangeRoom =
     [''Premium TV'', ''High-Speed Wi-Fi'', ''Climate Control'', ''Premium Bathroom'',
      ''Mini Fridge'', ''Coffee Maker'', ''Room Service Menu'']"
| "kind_amenities VIPRoom =
     [''Smart TV'', ''Ultra-Fast Wi-Fi'', ''Premium Climate Control'', ''Luxury Bathroom'',
      ''Mini Bar'', ''Espresso Machine'', ''24/7 Room Service'', ''Concierge Service'',
      ''Premium Linens'', ''Balcony'', ''Butler Service'']"

text \<open>
  Task objects are shared: the same object is in \<^verbatim>\<open>scheduler.tasks\<close>, in its room's
  \<^verbatim>\<open>tasks_history\<close> and later in \<^verbatim>\<open>completed_tasks\<close>, and the dispatch loop assigns to
  its fields in place. A task is therefore held in a store and the lists hold addresses.
\<close>

type_synonym ref = nat

text \<open>The room's \<^verbatim>\<open>room_number\<close> and \<^verbatim>\<open>floor\<close> are \<open>room_no\<close> and \<open>floor_no\<close>.\<close>

record room =
  room_no :: string
  floor_no :: nat
  amenities :: "string list"
  is_occupied :: bool
  guest_name :: string
  check_in_time :: "int option"
  tasks_history :: "ref list"
  kind :: room_kind

definition new_room :: "room_kind \<Rightarrow> string \<Rightarrow> nat \<Rightarrow> room" where
  "new_room k rn fl =
     \<lparr>room_no = rn, floor_no = fl, amenities = kind_amenities k, is_occupied = False,
      guest_name = [], check_in_time = None, tasks_history = [], kind = k\<rparr>"

definition add_task_to_history :: "room \<Rightarrow> ref \<Rightarrow> room" where
  "add_task_to_history rm t = rm\<lparr>tasks_history := tasks_history rm @ [t]\<rparr>"

subsection \<open>The room catalog\<close>

text \<open>The f-string \<^verbatim>\<open>f"{floor}{room_num:02d}"\<close>: decimal digits, the room number padded
  with zeros to width two.\<close>

definition digit_char :: "nat \<Rightarrow> char" where
  "digit_char d = ''0123456789'' ! (d mod 10)"

function str_of_nat :: "nat \<Rightarrow> string" where
  "str_of_nat n = (if n < 10 then [digit_char n] else str_of_nat (n div 10) @ [digit_char n])"
  by pat_completeness auto
termination
  by (relation "measure id") auto

declare str_of_nat.simps [simp del]

definition fmt_02d :: "nat \<Rightarrow> string" where
  "fmt_02d n = (let s = str_of_nat n in replicate (2 - length s) (CHR ''0'') @ s)"

definition room_key :: "nat \<Rightarrow> nat \<Rightarrow> string" where
  "room_key fl room_num = str_of_nat fl @ fmt_02d room_num"

definition add_rooms ::
  "room_kind \<Rightarrow> nat list \<Rightarrow> (string \<rightharpoonup> room) \<Rightarrow> (string \<rightharpoonup> room)" where
  "add_rooms k floors m =
     fold (\<lambda>fl. fold (\<lambda>room_num m'. m'(room_key fl room_num \<mapsto> new_room k (room_key fl room_num) fl))
                      [1..<31])
          floors m"

definition initialize_rooms :: "(string \<rightharpoonup> room) \<Rightarrow> (string \<rightharpoonup> room)" where
  "initialize_rooms m =
     add_rooms VIPRoom [7..<11] (add_rooms MidRangeRoom [4..<7] (add_rooms EconomyRoom [1..<4] m))"

subsection \<open>HotelScheduler\<close>

text \<open>
  The scheduler's fields, with the store of task objects and the next free address added.
  \<^verbatim>\<open>current_task\<close>, \<^verbatim>\<open>scheduler_thread\<close> and \<^verbatim>\<open>task_queue\<close> are assigned in the
  constructor and never used again; they are left out.
\<close>

record scheduler =
  heap :: "ref \<Rightarrow> task"
  next_ref :: ref
  tasks :: "ref list"
  completed_tasks :: "ref list"
  rooms :: "string \<rightharpoonup> room"
  task_counter :: int
  is_running :: bool
  current_algorithm :: string
  time_quantum :: int

text \<open>An address that no \<^verbatim>\<open>Task(...)\<close> call has returned yet holds this placeholder.\<close>

definition unallocated :: task where
  "unallocated =
     \<lparr>task_id = 0, room_number = [], room_class = [], task_type = [], priority = 0,
      estimated_time = 0, description = [], timestamp = 0, status = [], assigned_staff = [],
      actual_time = 0, service_charge = 0\<rparr>"

definition HotelScheduler :: scheduler where
  "HotelScheduler =
     \<lparr>heap = (\<lambda>_. unallocated), next_ref = 0, tasks = [], completed_tasks = [],
      rooms = initialize_rooms Map.empty, task_counter = 1, is_running = False,
      current_algorithm = ''Priority'', time_quantum = 15\<rparr>"

text \<open>The worker table is assigned once in the constructor and never written again.\<close>

definition staff_members :: "string \<rightharpoonup> string list" where
  "staff_members =
     [''VIP'' \<mapsto> [''Alice (VIP Specialist)'', ''Robert (Butler)'', ''Elena (Concierge)''],
      ''Mid-Range'' \<mapsto> [''Bob (Senior Staff)'', ''Diana (Room Service)'', ''Carlos (Maintenance)''],
      ''Economy'' \<mapsto> [''Charlie (Staff)'', ''Eve (Housekeeper)'', ''Frank (Assistant)'']]"

text \<open>
  \<^verbatim>\<open>str.replace(old, new)\<close>: every non-overlapping occurrence of \<open>old\<close>, scanning
  from the left. With an empty \<open>old\<close> Python puts \<open>new\<close> before every character and at the end.
\<close>

fun replace_from :: "string \<Rightarrow> string \<Rightarrow> string \<Rightarrow> string" where
  "replace_from old new [] = []"
| "replace_from old new (c # cs) =
     (if old \<noteq> [] \<and> take (length old) (c # cs) = old
      then new @ replace_from old new (drop (length old) (c # cs))
      else c # replace_from old new cs)"

definition str_replace :: "string \<Rightarrow> string \<Rightarrow> string \<Rightarrow> string" where
  "str_replace s old new =
     (if old = [] then concat (map (\<lambda>c. new @ [c]) s) @ new else replace_from old new s)"

definition get_room :: "scheduler \<Rightarrow> string \<Rightarrow> room option" where
  "get_room s rn = rooms s (str_replace rn ''Room '' [])"

datatype error = ValueError string | IndexError | KeyError

text \<open>\<^verbatim>\<open>random.choice\<close> reads the generator; the number it draws is the argument \<open>rnd\<close>.
  On an empty list it raises, which is \<open>None\<close>.\<close>

definition random_choice :: "nat \<Rightarrow> 'a list \<Rightarrow> 'a option" where
  "random_choice rnd xs = (if xs = [] then None else Some (xs ! (rnd mod length xs)))"

definition get_staff_for_room_class :: "string \<Rightarrow> nat \<Rightarrow> error + string" where
  "get_staff_for_room_class rc rnd =
     (case staff_members ''Economy'' of
        None \<Rightarrow> Inl KeyError
      | Some dflt \<Rightarrow>
          (case random_choice rnd (case staff_members rc of Some l \<Rightarrow> l | None \<Rightarrow> dflt) of
             None \<Rightarrow> Inl IndexError
           | Some staff \<Rightarrow> Inr staff))"

text \<open>
  \<^verbatim>\<open>add_task\<close>. \<^verbatim>\<open>datetime.now()\<close> is the argument \<open>now\<close>. The result is the exception
  raised or the address of the new task, and the scheduler as the call leaves it. A room
  object is always truthy, so \<^verbatim>\<open>not room\<close> holds exactly when the lookup returned
  \<^verbatim>\<open>None\<close>.
\<close>

definition add_task ::
  "string \<Rightarrow> string \<Rightarrow> int \<Rightarrow> string \<Rightarrow> int \<Rightarrow> scheduler \<Rightarrow> (error + ref) \<times> scheduler" where
  "add_task rn ttype est descr now s =
     (case get_room s rn of
        None \<Rightarrow> (Inl (ValueError (''Room '' @ rn @ '' not found'')), s)
      | Some rm \<Rightarrow>
          let prio = get_priority_level (kind rm);
              charge = calculate_service_charge (kind rm) (get_base_service_charge (kind rm));
              t = \<lparr>task_id = task_counter s, room_number = rn,
                   room_class = get_room_class (kind rm), task_type = ttype, priority = prio,
                   estimated_time = est, description = descr, timestamp = now,
                   status = ''Pending'', assigned_staff = [], actual_time = 0,
                   service_charge = charge\<rparr>;
              r = next_ref s
          in (Inr r,
              s\<lparr>heap := (heap s)(r := t), next_ref := Suc r,
                tasks := tasks s @ [r],
                rooms := (rooms s)(str_replace rn ''Room '' [] \<mapsto> add_task_to_history rm r),
                task_counter := task_counter s + 1\<rparr>))"

subsection \<open>The four scheduling policies\<close>

text \<open>
  \<^verbatim>\<open>sorted(xs, key=f)\<close> is ascending in the key and stable; \<open>sort_key\<close> is the stable
  insertion sort, so it returns the same list. A tuple key compares lexicographically, as
  pairs do here.
\<close>

definition pending :: "scheduler \<Rightarrow> ref list" where
  "pending s = filter (\<lambda>t. status (heap s t) = ''Pending'') (tasks s)"

definition fcfs_schedule :: "scheduler \<Rightarrow> ref list" where
  "fcfs_schedule s = sort_key (\<lambda>x. timestamp (heap s x)) (pending s)"

definition priority_schedule :: "scheduler \<Rightarrow> ref list" where
  "priority_schedule s =
     sort_key (\<lambda>x. (priority (heap s x), timestamp (heap s x))) (pending s)"

definition sjf_schedule :: "scheduler \<Rightarrow> ref list" where
  "sjf_schedule s =
     sort_key (\<lambda>x. (estimated_time (heap s x), priority (heap s x), timestamp (heap s x)))
              (pending s)"

definition round_robin_schedule :: "scheduler \<Rightarrow> ref list" where
  "round_robin_schedule s =
     (let pending_tasks = pending s
      in sort_key (\<lambda>x. (priority (heap s x), timestamp (heap s x))) pending_tasks)"

definition get_scheduled_tasks :: "scheduler \<Rightarrow> ref list" where
  "get_scheduled_tasks s =
     (if current_algorithm s = ''FCFS'' then fcfs_schedule s
      else if current_algorithm s = ''Priority'' then priority_schedule s
      else if current_algorithm s = ''SJF'' then sjf_schedule s
      else if current_algorithm s = ''Round Robin'' then round_robin_schedule s
      else [])"

subsection \<open>The dispatch loop\<close>

text \<open>
  \<^verbatim>\<open>list.remove(x)\<close> deletes the first element that is \<open>x\<close> or equals it; a dataclass
  compares field by field. It raises \<^verbatim>\<open>ValueError\<close> when there is none.
\<close>

fun list_remove :: "(ref \<Rightarrow> task) \<Rightarrow> ref \<Rightarrow> ref list \<Rightarrow> ref list option" where
  "list_remove h x [] = None"
| "list_remove h x (y # ys) =
     (if y = x \<or> h y = h x then Some ys else map_option ((#) y) (list_remove h x ys))"

definition assign_staff :: "ref \<Rightarrow> string \<Rightarrow> scheduler \<Rightarrow> scheduler" where
  "assign_staff t staff s = s\<lparr>heap := (heap s)(t := (heap s t)\<lparr>assigned_staff := staff\<rparr>)\<rparr>"

text \<open>
  \<^verbatim>\<open>run_simulation\<close> runs on a thread of its own, which \<^verbatim>\<open>start_simulation\<close>
  creates, and it takes no lock, while the handlers of the buttons go on running on the main
  thread and write the same lists and the same flag. The method is therefore modelled
  statement by statement. A \<open>control\<close> is the place where a thread stands:

  \<^item> \<open>Head\<close>: at the test of \<^verbatim>\<open>while self.is_simulation_running\<close>;
  \<^item> \<open>Fetch\<close>: at \<^verbatim>\<open>tasks = self.scheduler.get_scheduled_tasks()\<close>;
  \<^item> \<open>Assign t\<close>: \<open>t\<close> is \<^verbatim>\<open>tasks[0]\<close>, at the choice and assignment of the staff;
  \<^item> \<open>Progress t i n\<close>: in \<^verbatim>\<open>for i in range(n)\<close>, at the test of the flag that opens
    increment \<open>i\<close>;
  \<^item> \<open>Mark_status t\<close>, \<open>Mark_time t\<close>, \<open>Append t\<close>, \<open>Remove t\<close>: at each of the four
    statements after the loop ("Mark as completed");
  \<^item> \<open>Exited e\<close>: the method has returned, or an exception has ended the thread.

  Each statement that reads or writes what another thread may write is a step of its own and
  is atomic; what a thread computes from its own variables and from fields that are never
  written (the room class and the duration of a task, the staff table) goes with the step
  that uses it. \<^verbatim>\<open>time.sleep\<close> ends a step: a thread that has passed the
  test of increment \<open>i\<close> sleeps the tenth of a second of that increment where it stands next,
  at \<open>Progress t (Suc i) n\<close>, or at \<open>Mark_status t\<close> when the increment was the last one.
\<close>

datatype exit = Stopped | Cancelled | Raised error

datatype control =
    Head
  | Fetch
  | Assign ref
  | Progress ref nat nat
  | Mark_status ref
  | Mark_time ref
  | Append ref
  | Remove ref
  | Exited exit

text \<open>
  One statement of \<^verbatim>\<open>run_simulation\<close>: from the place \<open>c\<close>, with \<open>rnd\<close> the number that
  \<^verbatim>\<open>random.choice\<close> draws and \<open>flag\<close> the value of \<^verbatim>\<open>is_simulation_running\<close> at this
  moment, to the next place and the scheduler as the statement leaves it.
  \<^verbatim>\<open>range(task.estimated_time)\<close> is empty for a duration of zero or less; the duration of a
  task is never written after its creation, so it is read when the staff is assigned.
\<close>

fun run_simulation :: "control \<Rightarrow> nat \<Rightarrow> bool \<Rightarrow> scheduler \<Rightarrow> control \<times> scheduler" where
  "run_simulation Head rnd flag s = (if flag then (Fetch, s) else (Exited Stopped, s))"
| "run_simulation Fetch rnd flag s =
     (case get_scheduled_tasks s of [] \<Rightarrow> (Head, s) | t # _ \<Rightarrow> (Assign t, s))"
| "run_simulation (Assign t) rnd flag s =
     (case get_staff_for_room_class (room_class (heap s t)) rnd of
        Inl e \<Rightarrow> (Exited (Raised e), s)
      | Inr staff \<Rightarrow>
          (if nat (estimated_time (heap s t)) = 0 then Mark_status t
           else Progress t 0 (nat (estimated_time (heap s t))),
           assign_staff t staff s))"
| "run_simulation (Progress t i n) rnd flag s =
     (if \<not> flag then (Exited Cancelled, s)
      else (if Suc i < n then Progress t (Suc i) n else Mark_status t, s))"
| "run_simulation (Mark_status t) rnd flag s =
     (Mark_time t, s\<lparr>heap := (heap s)(t := (heap s t)\<lparr>status := ''Completed''\<rparr>)\<rparr>)"
| "run_simulation (Mark_time t) rnd flag s =
     (Append t, s\<lparr>heap := (heap s)(t := (heap s t)\<lparr>actual_time := estimated_time (heap s t)\<rparr>)\<rparr>)"
| "run_simulation (Append t) rnd flag s =
     (Remove t, s\<lparr>completed_tasks := completed_tasks s @ [t]\<rparr>)"
| "run_simulation (Remove t) rnd flag s =
     (case list_remove (heap s) t (tasks s) of
        None \<Rightarrow> (Exited (Raised (ValueError ''list.remove(x): x not in list'')), s)
      | Some ts \<Rightarrow> (Head, s\<lparr>tasks := ts\<rparr>))"
| "run_simulation (Exited e) rnd flag s = (Exited e, s)"

subsection \<open>The application object and its handlers\<close>

text \<open>
  Of \<^verbatim>\<open>HotelManagementGUI\<close> the scheduler, the flag, and the threads that
  \<^verbatim>\<open>start_simulation\<close> has created, each with the place where it stands. The attribute
  \<^verbatim>\<open>simulation_thread\<close> holds the last of them only, but a thread that it no longer names
  goes on running. \<open>idle_gui s\<close> is the object around the scheduler \<open>s\<close> with no thread
  started; the constructor makes it around \<^verbatim>\<open>HotelScheduler()\<close> and then admits three
  sample tasks.
\<close>

record gui =
  scheduler :: scheduler
  is_simulation_running :: bool
  threads :: "control list"

definition idle_gui :: "scheduler \<Rightarrow> gui" where
  "idle_gui s = \<lparr>scheduler = s, is_simulation_running = False, threads = []\<rparr>"

definition start_simulation :: "gui \<Rightarrow> gui" where
  "start_simulation g =
     (if is_simulation_running g then g
      else g\<lparr>is_simulation_running := True, threads := threads g @ [Head]\<rparr>)"

definition stop_simulation :: "gui \<Rightarrow> gui" where
  "stop_simulation g = g\<lparr>is_simulation_running := False\<rparr>"

definition clear_all_tasks :: "scheduler \<Rightarrow> scheduler" where
  "clear_all_tasks s = s\<lparr>tasks := [], completed_tasks := []\<rparr>"

text \<open>\<^verbatim>\<open>on_algorithm_change\<close>: \<open>quantum\<close> is \<^verbatim>\<open>int(self.quantum_var.get())\<close>, \<open>None\<close> when
  the conversion raises.\<close>

definition on_algorithm_change :: "string \<Rightarrow> int option \<Rightarrow> scheduler \<Rightarrow> scheduler" where
  "on_algorithm_change selected_algo quantum s =
     (let s1 = s\<lparr>current_algorithm := selected_algo\<rparr>
      in if selected_algo = ''Round Robin''
         then s1\<lparr>time_quantum := (case quantum of Some q \<Rightarrow> q | None \<Rightarrow> 15)\<rparr>
         else s1)"

text \<open>
  A run of the application is a sequence of these operations, in the order in which they
  take effect: a handler of the main thread (an admission, whose exception the handler
  catches; clearing; a change of policy; start; stop) or one statement of the thread with
  index \<open>w\<close>. Any interleaving of the handlers with the statements of the threads is such
  a sequence. A step of a thread that does not exist changes nothing.
\<close>

datatype operation =
    Admit string string int string int
  | ClearAll
  | SetAlgorithm string "int option"
  | Start
  | Stop
  | Step nat nat

fun exec :: "operation \<Rightarrow> gui \<Rightarrow> gui" where
  "exec (Admit rn ttype est descr now) g =
     g\<lparr>scheduler := snd (add_task rn ttype est descr now (scheduler g))\<rparr>"
| "exec ClearAll g = g\<lparr>scheduler := clear_all_tasks (scheduler g)\<rparr>"
| "exec (SetAlgorithm a q) g = g\<lparr>scheduler := on_algorithm_change a q (scheduler g)\<rparr>"
| "exec Start g = start_simulation g"
| "exec Stop g = stop_simulation g"
| "exec (Step w rnd) g =
     (if w < length (threads g)
      then case run_simulation (threads g ! w) rnd (is_simulation_running g) (scheduler g) of
             (c, s) \<Rightarrow> g\<lparr>scheduler := s, threads := (threads g)[w := c]\<rparr>
      else g)"

definition run :: "operation list \<Rightarrow> gui \<Rightarrow> gui" where
  "run ops g = fold exec ops g"

text \<open>The identifiers that the admissions of a run hand out, in the order of the run.\<close>

fun admitted_ids :: "operation list \<Rightarrow> gui \<Rightarrow> int list" where
  "admitted_ids [] g = []"
| "admitted_ids (Admit rn ttype est descr now # ops) g =
     (case add_task rn ttype est descr now (scheduler g) of
        (Inl e, s') \<Rightarrow> admitted_ids ops (g\<lparr>scheduler := s'\<rparr>)
      | (Inr r, s') \<Rightarrow> task_id (heap s' r) # admitted_ids ops (g\<lparr>scheduler := s'\<rparr>))"
| "admitted_ids (op # ops) g = admitted_ids ops (exec op g)"





subsection \<open>Example runs\<close>

text \<open>Four admissions into a fresh scheduler, all of ten minutes: an Economy room, a VIP
  room, a Mid-Range room named with the "Room " prefix, and a second VIP room.\<close>

definition demo_ops :: "operation list" where
  "demo_ops = [Admit ''101'' ''Housekeeping'' 10 ''towels'' 1,
               Admit ''710'' ''Butler Service'' 10 ''luggage'' 2,
               Admit ''Room 405'' ''Premium Housekeeping'' 10 ''linen'' 3,
               Admit ''702'' ''Concierge'' 10 ''taxi'' 4]"

definition demo_gui :: gui where
  "demo_gui = run demo_ops (idle_gui HotelScheduler)"

definition demo :: scheduler where
  "demo = scheduler demo_gui"

text \<open>The same four tasks after the policy selector is set to SJF, and to Round Robin with a
  quantum of 20.\<close>

definition demo_sjf :: scheduler where
  "demo_sjf = on_algorithm_change ''SJF'' None demo"

definition demo_rr :: scheduler where
  "demo_rr = on_algorithm_change ''Round Robin'' (Some 20) demo"


definition demo_last_increment :: gui where
  "demo_last_increment = run (Start # replicate (3 + 10) (Step 0 0)) demo_gui"


definition demo_marked :: scheduler where
  "demo_marked = scheduler (run [Step 0 0] demo_last_increment)"

definition demo_marked_sjf :: scheduler where
  "demo_marked_sjf = on_algorithm_change ''SJF'' None demo_marked"

section \<open>Properties\<close>

subsection \<open>The catalog: which keys \<^verbatim>\<open>initialize_rooms\<close> creates\<close>

lemma digit_char_inj: "a < 10 \<Longrightarrow> b < 10 \<Longrightarrow> digit_char a = digit_char b \<Longrightarrow> a = b"
proof -
  assume a: "a < 10" and b: "b < 10" and e: "digit_char a = digit_char b"
  have d: "distinct ''0123456789''" by simp
  have "''0123456789'' ! a = ''0123456789'' ! b"
    using a b e by (simp add: digit_char_def)
  with d a b show "a = b"
    by (simp add: nth_eq_iff_index_eq)
qed

lemma digit_char_digit: "digit_char d \<in> set ''0123456789''"
  unfolding digit_char_def by (rule nth_mem) simp

lemma str_of_nat_digits: "set (str_of_nat n) \<subseteq> set ''0123456789''"
proof (induction n rule: str_of_nat.induct)
  case (1 n)
  show ?case
  proof (cases "n < 10")
    case True
    then show ?thesis
      using digit_char_digit [of n] by (subst str_of_nat.simps) simp
  next
    case False
    then show ?thesis
      using 1 digit_char_digit [of n] by (subst str_of_nat.simps) simp
  qed
qed

lemma fmt_02d_digits: "set (fmt_02d n) \<subseteq> set ''0123456789''"
  using str_of_nat_digits [of n] by (auto simp: fmt_02d_def Let_def)

lemma room_key_digits: "set (room_key fl n) \<subseteq> set ''0123456789''"
  using str_of_nat_digits [of fl] fmt_02d_digits [of n] by (simp add: room_key_def)

lemma str_of_nat_small: "n < 10 \<Longrightarrow> str_of_nat n = [digit_char n]"
  by (subst str_of_nat.simps) simp

lemma fmt_02d_small: "n < 100 \<Longrightarrow> fmt_02d n = [digit_char (n div 10), digit_char n]"
proof (cases "n < 10")
  case True
  then show ?thesis
    by (simp add: fmt_02d_def str_of_nat_small digit_char_def)
next
  case False
  assume "n < 100"
  with False have "n div 10 < 10" by simp
  with False show ?thesis
    by (subst fmt_02d_def, subst str_of_nat.simps) (simp add: str_of_nat_small)
qed

lemma digit_char_mod: "digit_char (n mod 10) = digit_char n"
  by (simp add: digit_char_def)

lemma fmt_02d_inj:
  assumes "n < 100" "n' < 100" "fmt_02d n = fmt_02d n'"
  shows "n = n'"
proof -
  from assms have e: "digit_char (n div 10) = digit_char (n' div 10)"
    and f: "digit_char (n mod 10) = digit_char (n' mod 10)"
    by (simp_all add: fmt_02d_small digit_char_mod)
  from assms have "n div 10 < 10" "n' div 10 < 10" by simp_all
  with e have 1: "n div 10 = n' div 10" by (rule digit_char_inj [rotated 2])
  have "n mod 10 < 10" "n' mod 10 < 10" by simp_all
  with f have 2: "n mod 10 = n' mod 10" by (rule digit_char_inj [rotated 2])
  from 1 2 show ?thesis
    by (metis div_mult_mod_eq)
qed

lemma str_of_nat_10: "str_of_nat 10 = ''10''"
  by (subst str_of_nat.simps) (simp add: str_of_nat_small digit_char_def)

lemma room_key_inj:
  assumes fl: "1 \<le> fl" "fl \<le> 10" and fl': "1 \<le> fl'" "fl' \<le> 10"
    and n: "n < 100" "n' < 100" and e: "room_key fl n = room_key fl' n'"
  shows "fl = fl' \<and> n = n'"
proof -
  have len: "length (str_of_nat f) = (if f < 10 then 1 else 2)" if "f \<le> 10" for f
  proof (cases "f < 10")
    case True
    then show ?thesis by (simp add: str_of_nat_small)
  next
    case False
    with that have "f = 10" by simp
    then show ?thesis by (simp add: str_of_nat_10)
  qed
  from e n have le: "length (str_of_nat fl) = length (str_of_nat fl')"
    using arg_cong [OF e, of length] by (simp add: room_key_def fmt_02d_small)
  with e have s: "str_of_nat fl = str_of_nat fl'" and f: "fmt_02d n = fmt_02d n'"
    by (simp_all add: room_key_def)
  from n f have "n = n'" by (rule fmt_02d_inj)
  moreover have "fl = fl'"
  proof (cases "fl < 10")
    case True
    have "fl' < 10"
    proof (rule ccontr)
      assume "\<not> fl' < 10"
      then have "length (str_of_nat fl') = 2" by (simp only: len [OF fl'(2)] if_False)
      moreover from True have "length (str_of_nat fl) = 1" by (simp only: len [OF fl(2)] if_True)
      ultimately show False using le by linarith
    qed
    with True s have "digit_char fl = digit_char fl'"
      by (simp add: str_of_nat_small)
    with True \<open>fl' < 10\<close> show ?thesis
      by (rule digit_char_inj)
  next
    case False
    have "\<not> fl' < 10"
    proof
      assume "fl' < 10"
      then have "length (str_of_nat fl') = 1" by (simp only: len [OF fl'(2)] if_True)
      moreover from False have "length (str_of_nat fl) = 2" by (simp only: len [OF fl(2)] if_False)
      ultimately show False using le by linarith
    qed
    with False fl fl' show ?thesis by linarith
  qed
  ultimately show ?thesis by simp
qed


lemma floor_rooms_lookup:
  "fold (\<lambda>room_num m'. m'(room_key fl room_num \<mapsto> new_room k (room_key fl room_num) fl)) ns m key =
     (if key \<in> room_key fl ` set ns then Some (new_room k key fl) else m key)"
  by (induction ns arbitrary: m) auto

lemma add_rooms_Nil: "add_rooms k [] m = m"
  by (simp add: add_rooms_def)

lemma add_rooms_Cons:
  "add_rooms k (fl # floors) m =
     add_rooms k floors
       (fold (\<lambda>room_num m'. m'(room_key fl room_num \<mapsto> new_room k (room_key fl room_num) fl))
             [1..<31] m)"
  by (simp add: add_rooms_def)

lemma add_rooms_other:
  "\<forall>fl\<in>set floors. key \<notin> room_key fl ` {1..<31} \<Longrightarrow> add_rooms k floors m key = m key"
proof (induction floors arbitrary: m)
  case Nil
  show ?case by (simp add: add_rooms_Nil)
next
  case (Cons a floors)
  then show ?case
    by (simp add: add_rooms_Cons floor_rooms_lookup)
qed

lemma add_rooms_dom:
  "dom (add_rooms k floors m) = dom m \<union> (\<Union>fl\<in>set floors. room_key fl ` {1..<31})"
proof (induction floors arbitrary: m)
  case Nil
  show ?case by (simp add: add_rooms_Nil)
next
  case (Cons a floors)
  have "dom (fold (\<lambda>room_num m'. m'(room_key a room_num \<mapsto> new_room k (room_key a room_num) a))
                  [1..<31] m) = dom m \<union> room_key a ` {1..<31}"
    by (auto simp: floor_rooms_lookup dom_def split: if_splits)
  with Cons show ?case
    by (auto simp: add_rooms_Cons)
qed

lemma add_rooms_lookup:
  assumes "set floors \<subseteq> {1..10}" "fl \<in> set floors" "n \<in> {1..<31}"
  shows "add_rooms k floors m (room_key fl n) = Some (new_room k (room_key fl n) fl)"
  using assms
proof (induction floors arbitrary: m)
  case Nil
  then show ?case by simp
next
  case (Cons a floors)
  show ?case
  proof (cases "fl \<in> set floors")
    case True
    with Cons show ?thesis by (simp add: add_rooms_Cons)
  next
    case False
    with Cons.prems have a: "a = fl" by simp
    have "room_key fl n \<notin> room_key fl' ` {1..<31}" if "fl' \<in> set floors" for fl'
    proof
      assume "room_key fl n \<in> room_key fl' ` {1..<31}"
      then obtain n' where n': "n' \<in> {1..<31}" "room_key fl n = room_key fl' n'" by blast
      from Cons.prems that a have "1 \<le> fl" "fl \<le> 10" "1 \<le> fl'" "fl' \<le> 10" by auto
      moreover from Cons.prems n' have "n < 100" "n' < 100" by auto
      ultimately have "fl = fl'" using n'(2) room_key_inj by blast
      with that False show False by simp
    qed
    then have "add_rooms k floors m' (room_key fl n) = m' (room_key fl n)" for m'
      by (simp add: add_rooms_other)
    with Cons.prems a show ?thesis
      by (simp add: add_rooms_Cons floor_rooms_lookup)
  qed
qed

lemma room_key_floor_differs:
  assumes "1 \<le> fl" "fl \<le> 10" "n \<in> {1..<31}" "set floors \<subseteq> {1..10}" "fl \<notin> set floors"
  shows "\<forall>fl'\<in>set floors. room_key fl n \<notin> room_key fl' ` {1..<31}"
proof
  fix fl' assume f: "fl' \<in> set floors"
  show "room_key fl n \<notin> room_key fl' ` {1..<31}"
  proof
    assume "room_key fl n \<in> room_key fl' ` {1..<31}"
    then obtain n' where n': "n' \<in> {1..<31}" "room_key fl n = room_key fl' n'" by blast
    from assms f have "1 \<le> fl'" "fl' \<le> 10" by auto
    moreover from assms n' have "n < 100" "n' < 100" by auto
    ultimately have "fl = fl'" using assms(1,2) n'(2) room_key_inj by blast
    with f assms show False by simp
  qed
qed

lemma initialize_rooms_lookup:
  assumes "1 \<le> fl" "fl \<le> 10" "1 \<le> n" "n \<le> 30"
  shows "initialize_rooms m (room_key fl n) =
           Some (new_room (if fl < 4 then EconomyRoom else if fl < 7 then MidRangeRoom else VIPRoom)
                          (room_key fl n) fl)"
proof -
  from assms have n: "n \<in> {1..<31}" by simp
  have s1: "set [1..<4] \<subseteq> {1..10::nat}" and s2: "set [4..<7] \<subseteq> {1..10::nat}"
    and s3: "set [7..<11] \<subseteq> {1..10::nat}" by auto
  consider "fl < 4" | "4 \<le> fl" "fl < 7" | "7 \<le> fl" by linarith
  then show ?thesis
  proof cases
    case 1
    with assms have i: "fl \<in> set [1..<4]" and o2: "fl \<notin> set [4..<7]" and o3: "fl \<notin> set [7..<11]"
      by auto
    show ?thesis
      unfolding initialize_rooms_def
      using 1 add_rooms_other [OF room_key_floor_differs [OF assms(1,2) n s3 o3]]
        add_rooms_other [OF room_key_floor_differs [OF assms(1,2) n s2 o2]]
        add_rooms_lookup [OF s1 i n]
      by simp
  next
    case 2
    with assms have i: "fl \<in> set [4..<7]" and o3: "fl \<notin> set [7..<11]"
      by auto
    show ?thesis
      unfolding initialize_rooms_def
      using 2 add_rooms_other [OF room_key_floor_differs [OF assms(1,2) n s3 o3]]
        add_rooms_lookup [OF s2 i n]
      by simp
  next
    case 3
    with assms have i: "fl \<in> set [7..<11]" by auto
    show ?thesis
      unfolding initialize_rooms_def
      using 3 add_rooms_lookup [OF s3 i n]
      by simp
  qed
qed

lemma initialize_rooms_dom:
  "dom (initialize_rooms Map.empty) = (\<Union>fl\<in>{1..<11}. room_key fl ` {1..<31})"
proof -
  have "dom (initialize_rooms Map.empty) =
          (\<Union>fl\<in>set [1..<4] \<union> set [4..<7] \<union> set [7..<11]. room_key fl ` {1..<31})"
    unfolding initialize_rooms_def add_rooms_dom dom_empty by blast
  moreover have "set [1..<4] \<union> set [4..<7] \<union> set [7..<11] = {1..<11::nat}"
    by auto
  ultimately show ?thesis by (simp only:)
qed

lemma catalog_key_digits:
  "key \<in> dom (initialize_rooms Map.empty) \<Longrightarrow> set key \<subseteq> set ''0123456789''"
  unfolding initialize_rooms_dom using room_key_digits by blast

subsection \<open>Lexicographic keys and sorted lists\<close>

lemma lex_pair_le: "((a::int, b::int) \<le> (c, d)) = (a < c \<or> (a = c \<and> b \<le> d))"
  by (auto simp: less_eq_prod_def)

lemma lex_triple_le:
  "((a::int, b::int, c::int) \<le> (a', b', c')) = (a < a' \<or> (a = a' \<and> (b < b' \<or> (b = b' \<and> c \<le> c'))))"
  by (auto simp: less_eq_prod_def)

lemma sorted_map_nth:
  "sorted (map f xs) \<Longrightarrow> i < j \<Longrightarrow> j < length xs \<Longrightarrow> f (xs ! i) \<le> f (xs ! j)"
  by (simp add: sorted_iff_nth_mono_less)

subsection \<open>Runs, and the steps of a thread\<close>

lemma run_Nil: "run [] g = g"
  by (simp add: run_def)

lemma run_Cons: "run (x # ops) g = run ops (exec x g)"
  by (simp add: run_def)


lemma get_staff_for_room_class_total: "\<exists>staff. get_staff_for_room_class rc rnd = Inr staff"
  by (simp add: get_staff_for_room_class_def staff_members_def random_choice_def)

lemma exec_Step:
  assumes "w < length (threads g)"
    and "run_simulation (threads g ! w) rnd (is_simulation_running g) (scheduler g) = (c, s)"
  shows "exec (Step w rnd) g = g\<lparr>scheduler := s, threads := (threads g)[w := c]\<rparr>"
  using assms by simp

lemma progress_steps:
  assumes "w < length (threads g)" and "threads g ! w = Progress t i n"
    and "is_simulation_running g" and "i < n" and "i + k \<le> n"
  shows "run (replicate k (Step w rnd)) g =
           g\<lparr>threads := (threads g)[w := (if i + k < n then Progress t (i + k) n else Mark_status t)]\<rparr>"
  using assms
proof (induction k arbitrary: i g)
  case 0
  then show ?case
    by (simp add: run_Nil list_update_same_conv [THEN iffD2])
next
  case (Suc k)
  show ?case
  proof (cases "Suc i < n")
    case True
    define g' where "g' = g\<lparr>threads := (threads g)[w := Progress t (Suc i) n]\<rparr>"
    have e: "exec (Step w rnd) g = g'"
      using Suc.prems True by (simp add: g'_def)
    have "run (replicate k (Step w rnd)) g' =
            g'\<lparr>threads := (threads g')[w := (if Suc i + k < n then Progress t (Suc i + k) n else Mark_status t)]\<rparr>"
      using Suc.prems True by (intro Suc.IH) (simp_all add: g'_def)
    moreover have "run (replicate (Suc k) (Step w rnd)) g = run (replicate k (Step w rnd)) g'"
      by (simp only: replicate_Suc run_Cons e)
    ultimately show ?thesis
      by (simp add: g'_def)
  next
    case False
    with Suc.prems have k: "k = 0" and n: "Suc i = n" by simp_all
    show ?thesis
      unfolding k using Suc.prems n by (simp add: run_Cons run_Nil)
  qed
qed


lemma pass_steps:
  assumes "w < length (threads g)" and "threads g ! w = Head" and "is_simulation_running g"
    and "get_scheduled_tasks (scheduler g) = t # rest"
    and "k \<le> nat (estimated_time (heap (scheduler g) t))"
  shows "\<exists>staff. run (replicate (3 + k) (Step w rnd)) g =
           g\<lparr>scheduler := assign_staff t staff (scheduler g),
             threads := (threads g)[w := (if k < nat (estimated_time (heap (scheduler g) t))
                                          then Progress t k (nat (estimated_time (heap (scheduler g) t)))
                                          else Mark_status t)]\<rparr>"
proof -
  let ?n = "nat (estimated_time (heap (scheduler g) t))"
  obtain staff where st: "get_staff_for_room_class (room_class (heap (scheduler g) t)) rnd = Inr staff"
    using get_staff_for_room_class_total by blast
  define g1 where "g1 = g\<lparr>threads := (threads g)[w := Fetch]\<rparr>"
  define g2 where "g2 = g\<lparr>threads := (threads g)[w := Assign t]\<rparr>"
  define g3 where "g3 = g\<lparr>scheduler := assign_staff t staff (scheduler g),
    threads := (threads g)[w := (if ?n = 0 then Mark_status t else Progress t 0 ?n)]\<rparr>"
  have e1: "exec (Step w rnd) g = g1"
    using assms by (simp add: g1_def)
  have e2: "exec (Step w rnd) g1 = g2"
    using assms by (simp add: g1_def g2_def)
  have e3: "exec (Step w rnd) g2 = g3"
    using assms st by (simp add: g2_def g3_def)
  have r: "run (replicate (3 + k) (Step w rnd)) g = run (replicate k (Step w rnd)) g3"
    by (simp only: numeral_3_eq_3 add_Suc replicate_Suc run_Cons e1 e2 e3 add_0)
  have "run (replicate k (Step w rnd)) g3 =
          g\<lparr>scheduler := assign_staff t staff (scheduler g),
            threads := (threads g)[w := (if k < ?n then Progress t k ?n else Mark_status t)]\<rparr>"
  proof (cases "?n = 0")
    case True
    with assms(5) have "k = 0" by simp
    with True show ?thesis by (simp add: run_Nil g3_def)
  next
    case False
    have "run (replicate k (Step w rnd)) g3 =
          g3\<lparr>threads := (threads g3)[w := (if 0 + k < ?n then Progress t (0 + k) ?n else Mark_status t)]\<rparr>"
      using assms False by (intro progress_steps) (simp_all add: g3_def)
    with False show ?thesis by (simp add: g3_def)
  qed
  with r show ?thesis by auto
qed






subsection \<open>Evaluating the example runs\<close>

lemma room_key_101: "room_key 1 1 = ''101''"
  by (simp add: room_key_def fmt_02d_small str_of_nat_small digit_char_def)

lemma room_key_405: "room_key 4 5 = ''405''"
  by (simp add: room_key_def fmt_02d_small str_of_nat_small digit_char_def)

lemma room_key_710: "room_key 7 10 = ''710''"
  by (simp add: room_key_def fmt_02d_small str_of_nat_small digit_char_def)

lemma room_key_702: "room_key 7 2 = ''702''"
  by (simp add: room_key_def fmt_02d_small str_of_nat_small digit_char_def)

lemma catalog_101: "initialize_rooms Map.empty ''101'' = Some (new_room EconomyRoom ''101'' 1)"
  using initialize_rooms_lookup [of 1 1 Map.empty] unfolding room_key_101 by simp

lemma catalog_405: "initialize_rooms Map.empty ''405'' = Some (new_room MidRangeRoom ''405'' 4)"
  using initialize_rooms_lookup [of 4 5 Map.empty] unfolding room_key_405 by simp

lemma catalog_710: "initialize_rooms Map.empty ''710'' = Some (new_room VIPRoom ''710'' 7)"
  using initialize_rooms_lookup [of 7 10 Map.empty] unfolding room_key_710 by simp

lemma catalog_702: "initialize_rooms Map.empty ''702'' = Some (new_room VIPRoom ''702'' 7)"
  using initialize_rooms_lookup [of 7 2 Map.empty] unfolding room_key_702 by simp

lemma catalog_Penthouse: "initialize_rooms Map.empty ''Penthouse'' = None"
proof -
  have "''Penthouse'' \<notin> dom (initialize_rooms Map.empty)"
    using catalog_key_digits [of "''Penthouse''"] by auto
  then show ?thesis by (simp add: domIff)
qed


lemmas eval_simps = run_def idle_gui_def add_task_def get_room_def str_replace_def HotelScheduler_def
  Let_def new_room_def add_task_to_history_def calculate_service_charge_def
  catalog_101 catalog_405 catalog_710 catalog_702 catalog_Penthouse

lemma demo_gui_fields:
  "scheduler demo_gui = demo \<and> threads demo_gui = [] \<and> \<not> is_simulation_running demo_gui"
  by (simp add: demo_def demo_gui_def demo_ops_def run_def idle_gui_def)

lemma demo_lists: "tasks demo = [0, 1, 2, 3] \<and> completed_tasks demo = [] \<and> current_algorithm demo = ''Priority''
  \<and> task_counter demo = 5"
  by (simp add: demo_def demo_gui_def demo_ops_def eval_simps)

lemma demo_heap:
  "map (\<lambda>t. (priority (heap demo t), timestamp (heap demo t), estimated_time (heap demo t), status (heap demo t)))
       [0, 1, 2, 3] =
   [(3, 1, 10, ''Pending''), (1, 2, 10, ''Pending''), (2, 3, 10, ''Pending''), (1, 4, 10, ''Pending'')]"
  by (simp add: demo_def demo_gui_def demo_ops_def eval_simps)

lemma demo_sched: "get_scheduled_tasks demo = [1, 3, 2, 0]"
  using demo_lists demo_heap
  by (simp add: get_scheduled_tasks_def priority_schedule_def pending_def)

lemma demo_started:
  "exec Start demo_gui = \<lparr>scheduler = demo, is_simulation_running = True, threads = [Head]\<rparr>"
  using demo_gui_fields by (simp add: start_simulation_def)

lemma demo_steps:
  assumes "k \<le> 10"
  shows "\<exists>staff. run (Start # replicate (3 + k) (Step 0 0)) demo_gui =
     \<lparr>scheduler = assign_staff 1 staff demo, is_simulation_running = True,
      threads = [if k < 10 then Progress 1 k 10 else Mark_status 1]\<rparr>"
proof -
  let ?g = "\<lparr>scheduler = demo, is_simulation_running = True, threads = [Head]\<rparr>"
  have n: "nat (estimated_time (heap demo 1)) = 10"
    using demo_heap by simp
  from pass_steps [of 0 ?g 1 "[3, 2, 0]" k 0] demo_sched n assms
  obtain staff where "run (replicate (3 + k) (Step 0 0)) ?g =
      \<lparr>scheduler = assign_staff 1 staff demo, is_simulation_running = True,
       threads = [if k < 10 then Progress 1 k 10 else Mark_status 1]\<rparr>"
    by (auto cong: if_cong)
  then have "run (Start # replicate (3 + k) (Step 0 0)) demo_gui =
      \<lparr>scheduler = assign_staff 1 staff demo, is_simulation_running = True,
       threads = [if k < 10 then Progress 1 k 10 else Mark_status 1]\<rparr>"
    by (simp only: run_Cons demo_started)
  then show ?thesis by blast
qed


lemma demo_last_increment_fields:
  "\<exists>staff. demo_last_increment =
     \<lparr>scheduler = assign_staff 1 staff demo, is_simulation_running = True,
      threads = [Mark_status 1]\<rparr>"
  unfolding demo_last_increment_def using demo_steps [of 10] by simp

lemma demo_marked_fields:
  "tasks demo_marked = [0, 1, 2, 3] \<and> completed_tasks demo_marked = [] \<and>
   current_algorithm demo_marked = ''Priority'' \<and>
   map (\<lambda>t. (priority (heap demo_marked t), timestamp (heap demo_marked t),
              estimated_time (heap demo_marked t), status (heap demo_marked t))) [0, 1, 2, 3] =
   [(3, 1, 10, ''Pending''), (1, 2, 10, ''Completed''), (2, 3, 10, ''Pending''), (1, 4, 10, ''Pending'')]"
proof -
  from demo_last_increment_fields obtain staff where
    e: "demo_last_increment = \<lparr>scheduler = assign_staff 1 staff demo, is_simulation_running = True,
      threads = [Mark_status 1]\<rparr>"
    by blast
  have m: "demo_marked =
      (assign_staff 1 staff demo)\<lparr>heap := (heap (assign_staff 1 staff demo))
         (1 := (heap (assign_staff 1 staff demo) 1)\<lparr>status := ''Completed''\<rparr>)\<rparr>"
    unfolding demo_marked_def e by (simp add: run_Cons run_Nil)
  show ?thesis
    unfolding m using demo_lists demo_heap by (simp add: assign_staff_def)
qed

lemma demo_marked_sched: "get_scheduled_tasks demo_marked = [3, 2, 0]"
  using demo_marked_fields
  by (simp add: get_scheduled_tasks_def priority_schedule_def pending_def)









subsection \<open>Priority policy\<close>

text \<open>
  Claim C1. Under the Priority policy \<^verbatim>\<open>get_scheduled_tasks\<close> returns the pending tasks,
  that is the entries of \<^verbatim>\<open>tasks\<close> whose status is "Pending" and no others, each as often
  as it stands in \<^verbatim>\<open>tasks\<close>, sorted ascending by the pair (priority rank, creation
  timestamp): a task of strictly lower rank stands before every task of higher rank wherever
  the two stand in \<^verbatim>\<open>tasks\<close>, tasks of equal rank stand in ascending timestamp order, and
  tasks of equal rank and timestamp keep their order of insertion.
\<close>

theorem priority_schedule_order:
  assumes "current_algorithm s = ''Priority''"
  shows "mset (get_scheduled_tasks s) =
           filter_mset (\<lambda>t. status (heap s t) = ''Pending'') (mset (tasks s)) \<and>
         set (get_scheduled_tasks s) = {t \<in> set (tasks s). status (heap s t) = ''Pending''} \<and>
         sorted (map (\<lambda>t. (priority (heap s t), timestamp (heap s t))) (get_scheduled_tasks s)) \<and>
         (\<forall>i j. i < length (get_scheduled_tasks s) \<and> j < length (get_scheduled_tasks s) \<and>
                priority (heap s (get_scheduled_tasks s ! i)) < priority (heap s (get_scheduled_tasks s ! j))
                \<longrightarrow> i < j) \<and>
         (\<forall>i j. i < j \<and> j < length (get_scheduled_tasks s) \<and>
                priority (heap s (get_scheduled_tasks s ! i)) = priority (heap s (get_scheduled_tasks s ! j))
                \<longrightarrow> timestamp (heap s (get_scheduled_tasks s ! i)) \<le> timestamp (heap s (get_scheduled_tasks s ! j))) \<and>
         (\<forall>k. filter (\<lambda>t. (priority (heap s t), timestamp (heap s t)) = k) (get_scheduled_tasks s) =
              filter (\<lambda>t. status (heap s t) = ''Pending'' \<and>
                          (priority (heap s t), timestamp (heap s t)) = k) (tasks s))"
proof -
  let ?key = "\<lambda>t. (priority (heap s t), timestamp (heap s t))"
  let ?out = "get_scheduled_tasks s"
  let ?pend = "filter (\<lambda>t. status (heap s t) = ''Pending'') (tasks s)"
  have out: "?out = sort_key ?key ?pend"
    using assms by (simp add: get_scheduled_tasks_def priority_schedule_def pending_def)
  have perm: "mset ?out = filter_mset (\<lambda>t. status (heap s t) = ''Pending'') (mset (tasks s))"
    by (simp add: out)
  have mem: "set ?out = {t \<in> set (tasks s). status (heap s t) = ''Pending''}"
    by (simp add: out)
  have srt: "sorted (map ?key ?out)"
    by (simp add: out)
  have mono: "?key (?out ! i) \<le> ?key (?out ! j)" if "i < j" "j < length ?out" for i j
    using sorted_map_nth [OF srt that] .
  have rank: "i < j"
    if "i < length ?out" "j < length ?out"
       "priority (heap s (?out ! i)) < priority (heap s (?out ! j))" for i j
  proof (rule ccontr)
    assume "\<not> i < j"
    then consider "i = j" | "j < i" by linarith
    then show False
    proof cases
      case 1
      with that show False by simp
    next
      case 2
      from mono [OF 2 that(1)] that(3) show False
        by (simp add: lex_pair_le)
    qed
  qed
  have tie: "timestamp (heap s (?out ! i)) \<le> timestamp (heap s (?out ! j))"
    if "i < j" "j < length ?out"
       "priority (heap s (?out ! i)) = priority (heap s (?out ! j))" for i j
    using mono [OF that(1,2)] that(3) by (simp add: lex_pair_le)
  have stable: "filter (\<lambda>t. ?key t = k) ?out =
                filter (\<lambda>t. status (heap s t) = ''Pending'' \<and> ?key t = k) (tasks s)" for k
  proof -
    have "filter (\<lambda>t. ?key t = k) ?out = filter (\<lambda>t. ?key t = k) ?pend"
      unfolding out by (rule sort_key_stable)
    then show ?thesis by (simp only: filter_filter)
  qed
  from perm mem srt rank tie stable show ?thesis by blast
qed

theorem priority_schedule_order_witness:
  "current_algorithm demo = ''Priority'' \<and>
   get_scheduled_tasks demo = [1, 3, 2, 0] \<and>
   mset (get_scheduled_tasks demo) =
     filter_mset (\<lambda>t. status (heap demo t) = ''Pending'') (mset (tasks demo)) \<and>
   sorted (map (\<lambda>t. (priority (heap demo t), timestamp (heap demo t))) (get_scheduled_tasks demo)) \<and>
   priority (heap demo (get_scheduled_tasks demo ! 1)) < priority (heap demo (get_scheduled_tasks demo ! 2)) \<and>
   priority (heap demo (get_scheduled_tasks demo ! 0)) = priority (heap demo (get_scheduled_tasks demo ! 1)) \<and>
   timestamp (heap demo (get_scheduled_tasks demo ! 0)) \<le> timestamp (heap demo (get_scheduled_tasks demo ! 1)) \<and>
   current_algorithm demo_marked = ''Priority'' \<and>
   tasks demo_marked = [0, 1, 2, 3] \<and>
   status (heap demo_marked 1) = ''Completed'' \<and>
   get_scheduled_tasks demo_marked = [3, 2, 0] \<and>
   1 \<notin> set (get_scheduled_tasks demo_marked) \<and>
   set (get_scheduled_tasks demo_marked) =
     {t \<in> set (tasks demo_marked). status (heap demo_marked t) = ''Pending''}"
proof -
  have h: "current_algorithm demo = ''Priority''"
    using demo_lists by simp
  have len: "length (get_scheduled_tasks demo) = 4"
    by (simp add: demo_sched)
  have eq: "priority (heap demo (get_scheduled_tasks demo ! 0)) =
            priority (heap demo (get_scheduled_tasks demo ! 1))"
    using demo_heap by (simp add: demo_sched)
  have lt: "priority (heap demo (get_scheduled_tasks demo ! 1)) <
            priority (heap demo (get_scheduled_tasks demo ! 2))"
    using demo_heap by (simp add: demo_sched)
  note t = priority_schedule_order [OF h]
  from t have perm: "mset (get_scheduled_tasks demo) =
      filter_mset (\<lambda>t. status (heap demo t) = ''Pending'') (mset (tasks demo))"
    by (rule conjunct1)
  from t have srt: "sorted (map (\<lambda>t. (priority (heap demo t), timestamp (heap demo t)))
                               (get_scheduled_tasks demo))"
    by (simp only:)
  from t have "(0::nat) < 1 \<and> 1 < length (get_scheduled_tasks demo) \<and>
                priority (heap demo (get_scheduled_tasks demo ! 0)) =
                priority (heap demo (get_scheduled_tasks demo ! 1)) \<longrightarrow>
                timestamp (heap demo (get_scheduled_tasks demo ! 0)) \<le>
                timestamp (heap demo (get_scheduled_tasks demo ! 1))"
    by blast
  with len eq have tie: "timestamp (heap demo (get_scheduled_tasks demo ! 0)) \<le>
                         timestamp (heap demo (get_scheduled_tasks demo ! 1))"
    by simp
  have h': "current_algorithm demo_marked = ''Priority''"
    and ts: "tasks demo_marked = [0, 1, 2, 3]"
    and st: "status (heap demo_marked 1) = ''Completed''"
    using demo_marked_fields by simp_all
  from priority_schedule_order [OF h']
  have mem: "set (get_scheduled_tasks demo_marked) =
               {t \<in> set (tasks demo_marked). status (heap demo_marked t) = ''Pending''}"
    by (simp only:)
  with st have out: "1 \<notin> set (get_scheduled_tasks demo_marked)"
    by simp
  from h demo_sched perm srt lt eq tie h' ts st demo_marked_sched out mem show ?thesis
    by (simp only: simp_thms)
qed

subsection \<open>Shortest job first\<close>

lemma demo_sjf_fields:
  "tasks demo_sjf = tasks demo \<and> heap demo_sjf = heap demo \<and> current_algorithm demo_sjf = ''SJF''"
  by (simp add: demo_sjf_def on_algorithm_change_def Let_def)

lemma demo_sjf_sched: "get_scheduled_tasks demo_sjf = [1, 3, 2, 0]"
  using demo_lists demo_heap
  by (simp add: get_scheduled_tasks_def sjf_schedule_def pending_def demo_sjf_fields)

lemma demo_marked_sjf_fields:
  "tasks demo_marked_sjf = tasks demo_marked \<and> heap demo_marked_sjf = heap demo_marked \<and>
   current_algorithm demo_marked_sjf = ''SJF''"
  by (simp add: demo_marked_sjf_def on_algorithm_change_def Let_def)

lemma demo_marked_sjf_sched: "get_scheduled_tasks demo_marked_sjf = [3, 2, 0]"
  using demo_marked_fields
  by (simp add: get_scheduled_tasks_def sjf_schedule_def pending_def demo_marked_sjf_fields)

text \<open>
  Claim C3. Under the SJF policy \<^verbatim>\<open>get_scheduled_tasks\<close> returns the pending tasks, that
  is the entries of \<^verbatim>\<open>tasks\<close> whose status is "Pending" and no others, sorted ascending by
  the triple (estimated duration, priority rank, creation timestamp): durations ascend,
  among tasks of equal duration the ranks ascend, among tasks of equal duration and rank the
  timestamps ascend, and tasks equal in all three keep their order of insertion.
\<close>

theorem sjf_schedule_order:
  assumes "current_algorithm s = ''SJF''"
  shows "mset (get_scheduled_tasks s) =
           filter_mset (\<lambda>t. status (heap s t) = ''Pending'') (mset (tasks s)) \<and>
         set (get_scheduled_tasks s) = {t \<in> set (tasks s). status (heap s t) = ''Pending''} \<and>
         sorted (map (\<lambda>t. (estimated_time (heap s t), priority (heap s t), timestamp (heap s t)))
                     (get_scheduled_tasks s)) \<and>
         (\<forall>i j. i < j \<and> j < length (get_scheduled_tasks s) \<longrightarrow>
                estimated_time (heap s (get_scheduled_tasks s ! i)) \<le>
                estimated_time (heap s (get_scheduled_tasks s ! j))) \<and>
         (\<forall>i j. i < j \<and> j < length (get_scheduled_tasks s) \<and>
                estimated_time (heap s (get_scheduled_tasks s ! i)) =
                estimated_time (heap s (get_scheduled_tasks s ! j)) \<longrightarrow>
                priority (heap s (get_scheduled_tasks s ! i)) \<le>
                priority (heap s (get_scheduled_tasks s ! j))) \<and>
         (\<forall>i j. i < j \<and> j < length (get_scheduled_tasks s) \<and>
                estimated_time (heap s (get_scheduled_tasks s ! i)) =
                estimated_time (heap s (get_scheduled_tasks s ! j)) \<and>
                priority (heap s (get_scheduled_tasks s ! i)) =
                priority (heap s (get_scheduled_tasks s ! j)) \<longrightarrow>
                timestamp (heap s (get_scheduled_tasks s ! i)) \<le>
                timestamp (heap s (get_scheduled_tasks s ! j))) \<and>
         (\<forall>k. filter (\<lambda>t. (estimated_time (heap s t), priority (heap s t), timestamp (heap s t)) = k)
                     (get_scheduled_tasks s) =
              filter (\<lambda>t. status (heap s t) = ''Pending'' \<and>
                          (estimated_time (heap s t), priority (heap s t), timestamp (heap s t)) = k)
                     (tasks s))"
proof -
  let ?key = "\<lambda>t. (estimated_time (heap s t), priority (heap s t), timestamp (heap s t))"
  let ?out = "get_scheduled_tasks s"
  let ?pend = "filter (\<lambda>t. status (heap s t) = ''Pending'') (tasks s)"
  have out: "?out = sort_key ?key ?pend"
    using assms by (simp add: get_scheduled_tasks_def sjf_schedule_def pending_def)
  have perm: "mset ?out = filter_mset (\<lambda>t. status (heap s t) = ''Pending'') (mset (tasks s))"
    by (simp add: out)
  have mem: "set ?out = {t \<in> set (tasks s). status (heap s t) = ''Pending''}"
    by (simp add: out)
  have srt: "sorted (map ?key ?out)"
    by (simp add: out)
  have mono: "?key (?out ! i) \<le> ?key (?out ! j)" if "i < j" "j < length ?out" for i j
    using sorted_map_nth [OF srt that] .
  have dur: "estimated_time (heap s (?out ! i)) \<le> estimated_time (heap s (?out ! j))"
    if "i < j" "j < length ?out" for i j
    using mono [OF that] by (auto simp: lex_triple_le)
  have rank: "priority (heap s (?out ! i)) \<le> priority (heap s (?out ! j))"
    if "i < j" "j < length ?out"
       "estimated_time (heap s (?out ! i)) = estimated_time (heap s (?out ! j))" for i j
    using mono [OF that(1,2)] that(3) by (auto simp: lex_triple_le)
  have tie: "timestamp (heap s (?out ! i)) \<le> timestamp (heap s (?out ! j))"
    if "i < j" "j < length ?out"
       "estimated_time (heap s (?out ! i)) = estimated_time (heap s (?out ! j))"
       "priority (heap s (?out ! i)) = priority (heap s (?out ! j))" for i j
    using mono [OF that(1,2)] that(3,4) by (simp add: lex_triple_le)
  have stable: "filter (\<lambda>t. ?key t = k) ?out =
                filter (\<lambda>t. status (heap s t) = ''Pending'' \<and> ?key t = k) (tasks s)" for k
  proof -
    have "filter (\<lambda>t. ?key t = k) ?out = filter (\<lambda>t. ?key t = k) ?pend"
      unfolding out by (rule sort_key_stable)
    then show ?thesis by (simp only: filter_filter)
  qed
  from perm mem srt dur rank tie stable show ?thesis by blast
qed

theorem sjf_schedule_order_witness:
  "current_algorithm demo_sjf = ''SJF'' \<and>
   get_scheduled_tasks demo_sjf = [1, 3, 2, 0] \<and>
   mset (get_scheduled_tasks demo_sjf) =
     filter_mset (\<lambda>t. status (heap demo_sjf t) = ''Pending'') (mset (tasks demo_sjf)) \<and>
   estimated_time (heap demo_sjf (get_scheduled_tasks demo_sjf ! 1)) =
   estimated_time (heap demo_sjf (get_scheduled_tasks demo_sjf ! 2)) \<and>
   priority (heap demo_sjf (get_scheduled_tasks demo_sjf ! 1)) \<le>
   priority (heap demo_sjf (get_scheduled_tasks demo_sjf ! 2)) \<and>
   priority (heap demo_sjf (get_scheduled_tasks demo_sjf ! 0)) =
   priority (heap demo_sjf (get_scheduled_tasks demo_sjf ! 1)) \<and>
   timestamp (heap demo_sjf (get_scheduled_tasks demo_sjf ! 0)) \<le>
   timestamp (heap demo_sjf (get_scheduled_tasks demo_sjf ! 1)) \<and>
   current_algorithm demo_marked_sjf = ''SJF'' \<and>
   tasks demo_marked_sjf = [0, 1, 2, 3] \<and>
   status (heap demo_marked_sjf 1) = ''Completed'' \<and>
   get_scheduled_tasks demo_marked_sjf = [3, 2, 0] \<and>
   1 \<notin> set (get_scheduled_tasks demo_marked_sjf) \<and>
   set (get_scheduled_tasks demo_marked_sjf) =
     {t \<in> set (tasks demo_marked_sjf). status (heap demo_marked_sjf t) = ''Pending''}"
proof -
  let ?out = "get_scheduled_tasks demo_sjf"
  have h: "current_algorithm demo_sjf = ''SJF''"
    by (simp add: demo_sjf_fields)
  have len: "length ?out = 4"
    by (simp add: demo_sjf_sched)
  have d12: "estimated_time (heap demo_sjf (?out ! 1)) = estimated_time (heap demo_sjf (?out ! 2))"
    using demo_heap by (simp add: demo_sjf_sched demo_sjf_fields)
  have d01: "estimated_time (heap demo_sjf (?out ! 0)) = estimated_time (heap demo_sjf (?out ! 1))"
    using demo_heap by (simp add: demo_sjf_sched demo_sjf_fields)
  have p01: "priority (heap demo_sjf (?out ! 0)) = priority (heap demo_sjf (?out ! 1))"
    using demo_heap by (simp add: demo_sjf_sched demo_sjf_fields)
  note t = sjf_schedule_order [OF h]
  from t have perm: "mset ?out =
      filter_mset (\<lambda>t. status (heap demo_sjf t) = ''Pending'') (mset (tasks demo_sjf))"
    by (rule conjunct1)
  from t have "(1::nat) < 2 \<and> 2 < length ?out \<and>
        estimated_time (heap demo_sjf (?out ! 1)) = estimated_time (heap demo_sjf (?out ! 2)) \<longrightarrow>
        priority (heap demo_sjf (?out ! 1)) \<le> priority (heap demo_sjf (?out ! 2))"
    by blast
  with len d12 have rank: "priority (heap demo_sjf (?out ! 1)) \<le> priority (heap demo_sjf (?out ! 2))"
    by simp
  from t have "(0::nat) < 1 \<and> 1 < length ?out \<and>
        estimated_time (heap demo_sjf (?out ! 0)) = estimated_time (heap demo_sjf (?out ! 1)) \<and>
        priority (heap demo_sjf (?out ! 0)) = priority (heap demo_sjf (?out ! 1)) \<longrightarrow>
        timestamp (heap demo_sjf (?out ! 0)) \<le> timestamp (heap demo_sjf (?out ! 1))"
    by blast
  with len d01 p01 have tie: "timestamp (heap demo_sjf (?out ! 0)) \<le> timestamp (heap demo_sjf (?out ! 1))"
    by simp
  have h': "current_algorithm demo_marked_sjf = ''SJF''"
    and ts: "tasks demo_marked_sjf = [0, 1, 2, 3]"
    and st: "status (heap demo_marked_sjf 1) = ''Completed''"
    using demo_marked_fields by (simp_all add: demo_marked_sjf_fields)
  from sjf_schedule_order [OF h']
  have mem: "set (get_scheduled_tasks demo_marked_sjf) =
               {t \<in> set (tasks demo_marked_sjf). status (heap demo_marked_sjf t) = ''Pending''}"
    by (simp only:)
  with st have out: "1 \<notin> set (get_scheduled_tasks demo_marked_sjf)"
    by simp
  from h demo_sjf_sched perm d12 rank p01 tie h' ts st demo_marked_sjf_sched out mem show ?thesis
    by (simp only: simp_thms)
qed

subsection \<open>Round robin\<close>

text \<open>
  Claim C4. For every scheduler state \<^verbatim>\<open>round_robin_schedule\<close> and
  \<^verbatim>\<open>priority_schedule\<close> return the same sequence, the value of \<^verbatim>\<open>time_quantum\<close>
  does not enter the result, and so \<^verbatim>\<open>get_scheduled_tasks\<close> under "Round Robin" with any
  quantum is what it is under "Priority".
\<close>

theorem round_robin_is_priority:
  "round_robin_schedule s = priority_schedule s \<and>
   round_robin_schedule (s\<lparr>time_quantum := q\<rparr>) = round_robin_schedule s \<and>
   get_scheduled_tasks (on_algorithm_change ''Round Robin'' quantum s) =
   get_scheduled_tasks (on_algorithm_change ''Priority'' quantum' s)"
  by (simp add: round_robin_schedule_def priority_schedule_def pending_def Let_def
      get_scheduled_tasks_def on_algorithm_change_def)

theorem round_robin_is_priority_witness:
  "current_algorithm demo_rr = ''Round Robin'' \<and> time_quantum demo_rr = 20 \<and>
   time_quantum demo = 15 \<and>
   get_scheduled_tasks demo_rr = [1, 3, 2, 0] \<and>
   get_scheduled_tasks demo = [1, 3, 2, 0]"
proof -
  have f: "current_algorithm demo_rr = ''Round Robin'' \<and> time_quantum demo_rr = 20"
    by (simp add: demo_rr_def on_algorithm_change_def Let_def)
  have q: "time_quantum demo = 15"
    by (simp add: demo_def demo_gui_def demo_ops_def eval_simps)
  have p: "get_scheduled_tasks (on_algorithm_change ''Priority'' None demo) = [1, 3, 2, 0]"
    using demo_lists demo_heap
    by (simp add: get_scheduled_tasks_def priority_schedule_def pending_def
        on_algorithm_change_def Let_def)
  from round_robin_is_priority [of demo 20 "Some 20" None] p
  have "get_scheduled_tasks demo_rr = [1, 3, 2, 0]"
    by (simp add: demo_rr_def)
  with f q demo_sched show ?thesis by simp
qed

subsection \<open>Admission\<close>

lemma add_task_known:
  assumes "get_room s rn = Some rm"
  shows "add_task rn ttype est descr now s =
           (Inr (next_ref s),
            s\<lparr>heap := (heap s)(next_ref s :=
                    \<lparr>task_id = task_counter s, room_number = rn,
                     room_class = get_room_class (kind rm), task_type = ttype,
                     priority = get_priority_level (kind rm), estimated_time = est,
                     description = descr, timestamp = now, status = ''Pending'',
                     assigned_staff = [], actual_time = 0,
                     service_charge = get_base_service_charge (kind rm) *
                                      get_service_multiplier (kind rm)\<rparr>),
              next_ref := Suc (next_ref s),
              tasks := tasks s @ [next_ref s],
              rooms := (rooms s)(str_replace rn ''Room '' [] \<mapsto> add_task_to_history rm (next_ref s)),
              task_counter := task_counter s + 1\<rparr>)"
  using assms by (simp add: add_task_def Let_def calculate_service_charge_def)

lemma add_task_unknown:
  assumes "get_room s rn = None"
  shows "add_task rn ttype est descr now s = (Inl (ValueError (''Room '' @ rn @ '' not found'')), s)"
  using assms by (simp add: add_task_def)

lemma get_room_HotelScheduler_710:
  "get_room HotelScheduler ''710'' = Some (new_room VIPRoom ''710'' 7)"
  by (simp add: get_room_def str_replace_def HotelScheduler_def catalog_710)

lemma get_room_HotelScheduler_101:
  "get_room HotelScheduler ''101'' = Some (new_room EconomyRoom ''101'' 1)"
  by (simp add: get_room_def str_replace_def HotelScheduler_def catalog_101)

lemma get_room_demo_Penthouse: "get_room demo ''Penthouse'' = None"
  by (simp add: demo_def demo_gui_def demo_ops_def eval_simps)

text \<open>
  Claim C2. When the room is found, \<^verbatim>\<open>add_task\<close> succeeds, and the task it returns has
  as service charge the base charge of the room's class times the multiplier of the class
  (Economy 10 times 1, Mid-Range 15 times 3/2, VIP 25 times 5/2), as priority the rank of
  the class (VIP 1, Mid-Range 2, Economy 3), and as room class the name of the class.
\<close>

theorem add_task_charge_and_rank:
  assumes "get_room s rn = Some rm"
    and "add_task rn ttype est descr now s = (res, s')"
  shows "\<exists>r. res = Inr r \<and>
           service_charge (heap s' r) =
             get_base_service_charge (kind rm) * get_service_multiplier (kind rm) \<and>
           priority (heap s' r) = get_priority_level (kind rm) \<and>
           room_class (heap s' r) = get_room_class (kind rm) \<and>
           (kind rm = EconomyRoom \<longrightarrow>
              service_charge (heap s' r) = 10 * 1 \<and> priority (heap s' r) = 3) \<and>
           (kind rm = MidRangeRoom \<longrightarrow>
              service_charge (heap s' r) = 15 * (3 / 2) \<and> priority (heap s' r) = 2) \<and>
           (kind rm = VIPRoom \<longrightarrow>
              service_charge (heap s' r) = 25 * (5 / 2) \<and> priority (heap s' r) = 1)"
proof -
  from assms(2) have res: "res = Inr (next_ref s)"
    and h: "heap s' (next_ref s) =
              \<lparr>task_id = task_counter s, room_number = rn,
               room_class = get_room_class (kind rm), task_type = ttype,
               priority = get_priority_level (kind rm), estimated_time = est,
               description = descr, timestamp = now, status = ''Pending'',
               assigned_staff = [], actual_time = 0,
               service_charge = get_base_service_charge (kind rm) *
                                get_service_multiplier (kind rm)\<rparr>"
    unfolding add_task_known [OF assms(1)] by auto
  show ?thesis
    by (rule exI [of _ "next_ref s"]) (cases "kind rm"; simp add: res h)
qed

theorem add_task_charge_and_rank_witness:
  "get_room HotelScheduler ''710'' = Some (new_room VIPRoom ''710'' 7) \<and>
   fst (add_task ''710'' ''Butler Service'' 10 ''luggage'' 3 HotelScheduler) = Inr 0 \<and>
   service_charge (heap (snd (add_task ''710'' ''Butler Service'' 10 ''luggage'' 3 HotelScheduler)) 0)
     = 125 / 2 \<and>
   priority (heap (snd (add_task ''710'' ''Butler Service'' 10 ''luggage'' 3 HotelScheduler)) 0) = 1"
proof -
  let ?call = "add_task ''710'' ''Butler Service'' 10 ''luggage'' 3 HotelScheduler"
  have k: "kind (new_room VIPRoom ''710'' 7) = VIPRoom"
    by (simp add: new_room_def)
  have n: "next_ref HotelScheduler = 0"
    by (simp add: HotelScheduler_def)
  have f: "fst ?call = Inr 0"
    by (simp only: add_task_known [OF get_room_HotelScheduler_710] fst_conv n)
  from add_task_charge_and_rank [OF get_room_HotelScheduler_710, of "''Butler Service''" 10
      "''luggage''" 3 "fst ?call" "snd ?call"]
  obtain r where "fst ?call = Inr r"
    and "kind (new_room VIPRoom ''710'' 7) = VIPRoom \<longrightarrow>
           service_charge (heap (snd ?call) r) = 25 * (5 / 2) \<and> priority (heap (snd ?call) r) = 1"
    by auto
  with f k have "service_charge (heap (snd ?call) 0) = 125 / 2 \<and> priority (heap (snd ?call) 0) = 1"
    by simp
  with f get_room_HotelScheduler_710 show ?thesis by simp
qed

lemma catalog_keys:
  "dom (initialize_rooms Map.empty) =
     {k. \<exists>fl n. 1 \<le> fl \<and> fl \<le> 10 \<and> 1 \<le> n \<and> n \<le> 30 \<and> k = room_key fl n}"
proof -
  have "(\<Union>fl\<in>{1..<11}. room_key fl ` {1..<31}) =
          {k. \<exists>fl n. 1 \<le> fl \<and> fl \<le> 10 \<and> 1 \<le> n \<and> n \<le> (30::nat) \<and> k = room_key fl n}"
  proof (intro set_eqI iffI)
    fix k assume "k \<in> (\<Union>fl\<in>{1..<11}. room_key fl ` {1..<31})"
    then obtain fl n where "fl \<in> {1..<11::nat}" "n \<in> {1..<31::nat}" "k = room_key fl n"
      by blast
    then have "1 \<le> fl \<and> fl \<le> 10 \<and> 1 \<le> n \<and> n \<le> 30 \<and> k = room_key fl n"
      by simp
    then show "k \<in> {k. \<exists>fl n. 1 \<le> fl \<and> fl \<le> 10 \<and> 1 \<le> n \<and> n \<le> (30::nat) \<and> k = room_key fl n}"
      by blast
  next
    fix k assume "k \<in> {k. \<exists>fl n. 1 \<le> fl \<and> fl \<le> 10 \<and> 1 \<le> n \<and> n \<le> (30::nat) \<and> k = room_key fl n}"
    then obtain fl n where "1 \<le> fl" "fl \<le> 10" "1 \<le> n" "n \<le> (30::nat)" "k = room_key fl n"
      by blast
    then have "fl \<in> {1..<11::nat}" "n \<in> {1..<31::nat}" "k = room_key fl n"
      by simp_all
    then show "k \<in> (\<Union>fl\<in>{1..<11}. room_key fl ` {1..<31})"
      by blast
  qed
  then show ?thesis by (simp only: initialize_rooms_dom)
qed

lemma add_task_rooms_dom:
  "dom (rooms (snd (add_task rn ttype est descr now s))) = dom (rooms s)"
proof (cases "get_room s rn")
  case None
  then show ?thesis by (simp add: add_task_unknown)
next
  case (Some rm)
  then have "str_replace rn ''Room '' [] \<in> dom (rooms s)"
    by (auto simp: get_room_def)
  with Some show ?thesis
    by (simp add: add_task_known insert_absorb)
qed

lemma run_simulation_frame:
  "rooms (snd (run_simulation c rnd flag s)) = rooms s \<and>
   task_counter (snd (run_simulation c rnd flag s)) = task_counter s \<and>
   next_ref (snd (run_simulation c rnd flag s)) = next_ref s \<and>
   current_algorithm (snd (run_simulation c rnd flag s)) = current_algorithm s"
  by (cases c) (simp_all add: assign_staff_def split: list.split sum.split option.split)

lemma exec_rooms_dom: "dom (rooms (scheduler (exec x g))) = dom (rooms (scheduler g))"
proof (cases x)
  case (Admit rn ttype est descr now)
  then show ?thesis by (simp add: add_task_rooms_dom)
next
  case ClearAll
  then show ?thesis by (simp add: clear_all_tasks_def)
next
  case (SetAlgorithm a q)
  then show ?thesis by (simp add: on_algorithm_change_def Let_def)
next
  case Start
  then show ?thesis by (simp add: start_simulation_def)
next
  case Stop
  then show ?thesis by (simp add: stop_simulation_def)
next
  case (Step w rnd)
  show ?thesis
  proof (cases "w < length (threads g)")
    case True
    obtain c s where r: "run_simulation (threads g ! w) rnd (is_simulation_running g) (scheduler g) = (c, s)"
      by (cases "run_simulation (threads g ! w) rnd (is_simulation_running g) (scheduler g)")
    from run_simulation_frame [of "threads g ! w" rnd "is_simulation_running g" "scheduler g"] r
    have "rooms s = rooms (scheduler g)" by simp
    with Step True r show ?thesis by simp
  next
    case False
    with Step show ?thesis by simp
  qed
qed

lemma run_rooms_dom: "dom (rooms (scheduler (run ops g))) = dom (rooms (scheduler g))"
proof (induction ops arbitrary: g)
  case Nil
  show ?case by (simp add: run_Nil)
next
  case (Cons x ops)
  from Cons [of "exec x g"] exec_rooms_dom [of x g] show ?case
    by (simp add: run_Cons)
qed

lemma demo_rooms_dom: "dom (rooms demo) = dom (initialize_rooms Map.empty)"
  unfolding demo_def demo_gui_def run_rooms_dom by (simp add: idle_gui_def HotelScheduler_def)

text \<open>
  Claim C6, as amended. \<^verbatim>\<open>add_task\<close> does not look its argument up as it stands: it
  first deletes every occurrence of "Room " from it, wherever it stands, and looks up what is
  left. The call fails exactly when what is left is not a key of the room table; then it
  raises the \<^verbatim>\<open>ValueError\<close> "Room ... not found" and the scheduler is as it was before the
  call: the pending list, the completed list, the task counter, the store of tasks and every
  room with its history. For the table that the constructor builds (and that no operation
  changes the keys of) the call fails exactly when what is left is not a floor from 1 to 10
  followed by a two-digit room number from 01 to 30.
\<close>

theorem add_task_unknown_room_unchanged:
  assumes "add_task rn ttype est descr now s = (res, s')"
  shows "(isl res \<longleftrightarrow> str_replace rn ''Room '' [] \<notin> dom (rooms s)) \<and>
         (str_replace rn ''Room '' [] \<notin> dom (rooms s) \<longrightarrow>
            res = Inl (ValueError (''Room '' @ rn @ '' not found'')) \<and>
            s' = s \<and>
            tasks s' = tasks s \<and> length (tasks s') = length (tasks s) \<and>
            completed_tasks s' = completed_tasks s \<and>
            task_counter s' = task_counter s \<and>
            heap s' = heap s \<and>
            rooms s' = rooms s \<and>
            (\<forall>k. map_option tasks_history (rooms s' k) = map_option tasks_history (rooms s k))) \<and>
         (dom (rooms s) = dom (initialize_rooms Map.empty) \<longrightarrow>
            (isl res \<longleftrightarrow>
               \<not> (\<exists>fl n. 1 \<le> fl \<and> fl \<le> 10 \<and> 1 \<le> n \<and> n \<le> 30 \<and>
                         str_replace rn ''Room '' [] = room_key fl n)))"
proof -
  have crit: "isl res \<longleftrightarrow> str_replace rn ''Room '' [] \<notin> dom (rooms s)"
  proof (cases "get_room s rn")
    case None
    then have "str_replace rn ''Room '' [] \<notin> dom (rooms s)"
      by (simp add: get_room_def domIff)
    with assms None show ?thesis by (auto simp: add_task_unknown)
  next
    case (Some rm)
    then have "str_replace rn ''Room '' [] \<in> dom (rooms s)"
      by (auto simp: get_room_def)
    with assms Some show ?thesis by (auto simp: add_task_known)
  qed
  have frame: "res = Inl (ValueError (''Room '' @ rn @ '' not found'')) \<and>
            s' = s \<and>
            tasks s' = tasks s \<and> length (tasks s') = length (tasks s) \<and>
            completed_tasks s' = completed_tasks s \<and>
            task_counter s' = task_counter s \<and>
            heap s' = heap s \<and>
            rooms s' = rooms s \<and>
            (\<forall>k. map_option tasks_history (rooms s' k) = map_option tasks_history (rooms s k))"
    if "str_replace rn ''Room '' [] \<notin> dom (rooms s)"
  proof -
    from that have "get_room s rn = None"
      by (simp add: get_room_def domIff)
    from assms show ?thesis
      unfolding add_task_unknown [OF \<open>get_room s rn = None\<close>] by auto
  qed
  have cat: "isl res \<longleftrightarrow>
               \<not> (\<exists>fl n. 1 \<le> fl \<and> fl \<le> 10 \<and> 1 \<le> n \<and> n \<le> 30 \<and>
                         str_replace rn ''Room '' [] = room_key fl n)"
    if "dom (rooms s) = dom (initialize_rooms Map.empty)"
    unfolding crit that catalog_keys by simp
  from crit frame cat show ?thesis by blast
qed

theorem add_task_unknown_room_unchanged_witness:
  "str_replace ''Penthouse'' ''Room '' [] = ''Penthouse'' \<and>
   ''Penthouse'' \<notin> dom (rooms demo) \<and>
   dom (rooms demo) = dom (initialize_rooms Map.empty) \<and>
   fst (add_task ''Penthouse'' ''Housekeeping'' 30 ''towels'' 9 demo) =
     Inl (ValueError ''Room Penthouse not found'') \<and>
   snd (add_task ''Penthouse'' ''Housekeeping'' 30 ''towels'' 9 demo) = demo \<and>
   length (tasks (snd (add_task ''Penthouse'' ''Housekeeping'' 30 ''towels'' 9 demo))) = 4 \<and>
   task_counter (snd (add_task ''Penthouse'' ''Housekeeping'' 30 ''towels'' 9 demo)) = 5 \<and>
   \<not> (\<exists>fl n. 1 \<le> fl \<and> fl \<le> 10 \<and> 1 \<le> n \<and> n \<le> 30 \<and>
             str_replace ''Penthouse'' ''Room '' [] = room_key fl n)"
proof -
  let ?call = "add_task ''Penthouse'' ''Housekeeping'' 30 ''towels'' 9 demo"
  have sr: "str_replace ''Penthouse'' ''Room '' [] = ''Penthouse''"
    by (simp add: str_replace_def)
  have nd: "''Penthouse'' \<notin> dom (rooms demo)"
    using get_room_demo_Penthouse by (simp add: get_room_def sr domIff)
  note t = add_task_unknown_room_unchanged [of "''Penthouse''" "''Housekeeping''" 30 "''towels''" 9
      demo "fst ?call" "snd ?call", OF surjective_pairing]
  from t have "str_replace ''Penthouse'' ''Room '' [] \<notin> dom (rooms demo) \<longrightarrow>
      fst ?call = Inl (ValueError (''Room '' @ ''Penthouse'' @ '' not found'')) \<and> snd ?call = demo"
    by blast
  with nd have f: "fst ?call = Inl (ValueError ''Room Penthouse not found'')"
    and u: "snd ?call = demo"
    unfolding sr by simp_all
  from t have "dom (rooms demo) = dom (initialize_rooms Map.empty) \<longrightarrow>
     (isl (fst ?call) \<longleftrightarrow>
      \<not> (\<exists>fl n. 1 \<le> fl \<and> fl \<le> 10 \<and> 1 \<le> n \<and> n \<le> 30 \<and>
                str_replace ''Penthouse'' ''Room '' [] = room_key fl n))"
    by blast
  with demo_rooms_dom have "isl (fst ?call) \<longleftrightarrow>
      \<not> (\<exists>fl n. 1 \<le> fl \<and> fl \<le> 10 \<and> 1 \<le> n \<and> n \<le> 30 \<and>
                str_replace ''Penthouse'' ''Room '' [] = room_key fl n)"
    by blast
  moreover have "isl (fst ?call)"
    unfolding f by simp
  ultimately have no: "\<not> (\<exists>fl n. 1 \<le> fl \<and> fl \<le> 10 \<and> 1 \<le> n \<and> n \<le> 30 \<and>
                str_replace ''Penthouse'' ''Room '' [] = room_key fl n)"
    by blast
  have l: "length (tasks (snd ?call)) = 4" and c: "task_counter (snd ?call) = 5"
    unfolding u using demo_lists by simp_all
  from sr nd demo_rooms_dom f u l c no show ?thesis by blast
qed

text \<open>
  Claim C6 as the specification states it fails. The identifier "4Room 05" is no key of the
  room table and does not begin with "Room ", so it matches no room; but deleting "Room "
  from it leaves "405", and the call on a fresh scheduler is admitted: it returns a task,
  lengthens the pending list, advances the counter and writes the history of room 405.
\<close>

theorem add_task_foreign_identifier_admitted:
  "''4Room 05'' \<notin> dom (rooms HotelScheduler) \<and>
   take 5 ''4Room 05'' \<noteq> ''Room '' \<and>
   str_replace ''4Room 05'' ''Room '' [] = ''405'' \<and>
   fst (add_task ''4Room 05'' ''Housekeeping'' 30 ''towels'' 1 HotelScheduler) = Inr 0 \<and>
   tasks HotelScheduler = [] \<and>
   tasks (snd (add_task ''4Room 05'' ''Housekeeping'' 30 ''towels'' 1 HotelScheduler)) = [0] \<and>
   task_counter HotelScheduler = 1 \<and>
   task_counter (snd (add_task ''4Room 05'' ''Housekeeping'' 30 ''towels'' 1 HotelScheduler)) = 2 \<and>
   map_option tasks_history (rooms HotelScheduler ''405'') = Some [] \<and>
   map_option tasks_history
     (rooms (snd (add_task ''4Room 05'' ''Housekeeping'' 30 ''towels'' 1 HotelScheduler)) ''405'') = Some [0]"
proof -
  have "''4Room 05'' \<notin> dom (initialize_rooms Map.empty)"
    using catalog_key_digits [of "''4Room 05''"] by auto
  then have nd: "''4Room 05'' \<notin> dom (rooms HotelScheduler)"
    by (simp add: HotelScheduler_def)
  have sr: "str_replace ''4Room 05'' ''Room '' [] = ''405''"
    by (simp add: str_replace_def)
  have g: "get_room HotelScheduler ''4Room 05'' = Some (new_room MidRangeRoom ''405'' 4)"
    by (simp add: get_room_def sr) (simp add: HotelScheduler_def catalog_405)
  have rest: "fst (add_task ''4Room 05'' ''Housekeeping'' 30 ''towels'' 1 HotelScheduler) = Inr 0 \<and>
   tasks HotelScheduler = [] \<and>
   tasks (snd (add_task ''4Room 05'' ''Housekeeping'' 30 ''towels'' 1 HotelScheduler)) = [0] \<and>
   task_counter HotelScheduler = 1 \<and>
   task_counter (snd (add_task ''4Room 05'' ''Housekeeping'' 30 ''towels'' 1 HotelScheduler)) = 2 \<and>
   map_option tasks_history (rooms HotelScheduler ''405'') = Some [] \<and>
   map_option tasks_history
     (rooms (snd (add_task ''4Room 05'' ''Housekeeping'' 30 ''towels'' 1 HotelScheduler)) ''405'') = Some [0]"
    by (simp add: add_task_known [OF g] sr)
       (simp add: HotelScheduler_def catalog_405 new_room_def add_task_to_history_def)
  from nd sr rest show ?thesis by simp
qed

text \<open>
  Claim C5, as amended. \<^verbatim>\<open>add_task\<close> does not look at the estimated duration: whether
  it fails depends on the room lookup alone, and there is no error for a duration of zero or
  less. For every duration a call that names an existing room succeeds, creates a task with
  that duration and appends it to the pending list; a call that names no room raises
  \<^verbatim>\<open>ValueError\<close>, creates no task and leaves the pending list as it was.
\<close>

theorem add_task_ignores_duration:
  "(isl (fst (add_task rn ttype est descr now s)) \<longleftrightarrow> get_room s rn = None) \<and>
   (get_room s rn = None \<longrightarrow>
      add_task rn ttype est descr now s = (Inl (ValueError (''Room '' @ rn @ '' not found'')), s)) \<and>
   (get_room s rn \<noteq> None \<longrightarrow>
      fst (add_task rn ttype est descr now s) = Inr (next_ref s) \<and>
      tasks (snd (add_task rn ttype est descr now s)) = tasks s @ [next_ref s] \<and>
      estimated_time (heap (snd (add_task rn ttype est descr now s)) (next_ref s)) = est \<and>
      status (heap (snd (add_task rn ttype est descr now s)) (next_ref s)) = ''Pending'')"
proof (cases "get_room s rn")
  case None
  then show ?thesis by (simp add: add_task_unknown)
next
  case (Some rm)
  then show ?thesis by (simp add: add_task_known)
qed

theorem add_task_ignores_duration_witness:
  "get_room HotelScheduler ''101'' \<noteq> None \<and>
   \<not> isl (fst (add_task ''101'' ''Housekeeping'' (- 5) ''towels'' 1 HotelScheduler)) \<and>
   tasks (snd (add_task ''101'' ''Housekeeping'' (- 5) ''towels'' 1 HotelScheduler)) = [0] \<and>
   estimated_time (heap (snd (add_task ''101'' ''Housekeeping'' (- 5) ''towels'' 1 HotelScheduler)) 0)
     = - 5"
proof -
  have g: "get_room HotelScheduler ''101'' \<noteq> None"
    by (simp add: get_room_HotelScheduler_101)
  have n: "next_ref HotelScheduler = 0" and t: "tasks HotelScheduler = []"
    by (simp_all add: HotelScheduler_def)
  from add_task_ignores_duration [of "''101''" "''Housekeeping''" "- 5" "''towels''" 1 HotelScheduler]
    g n t show ?thesis by simp
qed

text \<open>
  Claim C5 as the specification states it fails: a call with duration zero on room 101 of
  a fresh scheduler returns a task and lengthens the pending list.
\<close>

theorem add_task_zero_duration_admitted:
  "fst (add_task ''101'' ''Housekeeping'' 0 ''towels'' 1 HotelScheduler) = Inr 0 \<and>
   tasks HotelScheduler = [] \<and>
   tasks (snd (add_task ''101'' ''Housekeeping'' 0 ''towels'' 1 HotelScheduler)) = [0] \<and>
   estimated_time (heap (snd (add_task ''101'' ''Housekeeping'' 0 ''towels'' 1 HotelScheduler)) 0) = 0"
  by (simp add: add_task_known [OF get_room_HotelScheduler_101]) (simp add: HotelScheduler_def)

subsection \<open>Cancellation\<close>










subsection \<open>Counting pending and completed tasks\<close>

lemma admit_counts:
  "length (tasks (snd (add_task rn ttype est descr now s))) =
     length (tasks s) + (if get_room s rn = None then 0 else 1) \<and>
   completed_tasks (snd (add_task rn ttype est descr now s)) = completed_tasks s \<and>
   task_counter (snd (add_task rn ttype est descr now s)) =
     task_counter s + (if get_room s rn = None then 0 else 1) \<and>
   set (tasks s) \<subseteq> set (tasks (snd (add_task rn ttype est descr now s)))"
proof (cases "get_room s rn")
  case None
  then show ?thesis by (simp add: add_task_unknown)
next
  case (Some rm)
  then show ?thesis by (auto simp: add_task_known)
qed

lemma admitted_ids_Admit:
  "admitted_ids (Admit rn ttype est descr now # ops) g =
     (if get_room (scheduler g) rn = None then [] else [task_counter (scheduler g)]) @
     admitted_ids ops (exec (Admit rn ttype est descr now) g)"
proof (cases "get_room (scheduler g) rn")
  case None
  then show ?thesis by (simp add: add_task_unknown)
next
  case (Some rm)
  then show ?thesis by (simp add: add_task_known)
qed

lemma admitted_ids_other:
  "\<forall>rn ttype est descr now. x \<noteq> Admit rn ttype est descr now \<Longrightarrow>
     admitted_ids (x # ops) g = admitted_ids ops (exec x g)"
  by (cases x) simp_all

lemma admitted_ids_Cons:
  "admitted_ids (x # ops) g = admitted_ids [x] g @ admitted_ids ops (exec x g)"
proof (cases x)
  case (Admit rn ttype est descr now)
  then show ?thesis
    by (simp add: admitted_ids_Admit del: admitted_ids.simps(2))
qed simp_all











subsection \<open>Clearing and task identifiers\<close>

lemma exec_counter:
  "task_counter (scheduler g) \<le> task_counter (scheduler (exec x g))"
proof (cases x)
  case (Admit rn ttype est descr now)
  with admit_counts [of rn ttype est descr now "scheduler g"] show ?thesis by simp
next
  case ClearAll
  then show ?thesis by (simp add: clear_all_tasks_def)
next
  case (SetAlgorithm a q)
  then show ?thesis by (simp add: on_algorithm_change_def Let_def)
next
  case Start
  then show ?thesis by (simp add: start_simulation_def)
next
  case Stop
  then show ?thesis by (simp add: stop_simulation_def)
next
  case (Step w rnd)
  show ?thesis
  proof (cases "w < length (threads g)")
    case True
    obtain c s where r: "run_simulation (threads g ! w) rnd (is_simulation_running g) (scheduler g) = (c, s)"
      by (cases "run_simulation (threads g ! w) rnd (is_simulation_running g) (scheduler g)")
    from run_simulation_frame [of "threads g ! w" rnd "is_simulation_running g" "scheduler g"] r
    have "task_counter s = task_counter (scheduler g)" by simp
    with Step True r show ?thesis by simp
  next
    case False
    with Step show ?thesis by simp
  qed
qed

lemma run_counter: "task_counter (scheduler g) \<le> task_counter (scheduler (run ops g))"
proof (induction ops arbitrary: g)
  case Nil
  show ?case by (simp add: run_Nil)
next
  case (Cons x ops)
  from exec_counter [of g x] Cons [of "exec x g"] show ?case
    by (simp add: run_Cons)
qed

lemma admitted_ids_bounds:
  "i \<in> set (admitted_ids ops g) \<Longrightarrow>
     task_counter (scheduler g) \<le> i \<and> i < task_counter (scheduler (run ops g))"
proof (induction ops arbitrary: g)
  case Nil
  then show ?case by simp
next
  case (Cons x ops)
  show ?case
  proof (cases "i \<in> set (admitted_ids ops (exec x g))")
    case True
    from Cons.IH [OF True] exec_counter [of g x] show ?thesis
      by (simp add: run_Cons)
  next
    case False
    with Cons.prems have one: "i \<in> set (admitted_ids [x] g)"
      by (subst (asm) admitted_ids_Cons) simp
    then obtain rn ttype est descr now where x: "x = Admit rn ttype est descr now"
      by (cases x) simp_all
    from one have i: "i = task_counter (scheduler g)" and g: "get_room (scheduler g) rn \<noteq> None"
      unfolding x by (auto simp: admitted_ids_Admit simp del: admitted_ids.simps(2) split: if_splits)
    from g admit_counts [of rn ttype est descr now "scheduler g"]
    have "task_counter (scheduler (exec x g)) = task_counter (scheduler g) + 1"
      unfolding x by simp
    with run_counter [of "exec x g" ops] i show ?thesis
      by (simp add: run_Cons)
  qed
qed

lemma admitted_ids_increasing: "sorted_wrt (<) (admitted_ids ops g)"
proof (induction ops arbitrary: g)
  case Nil
  show ?case by simp
next
  case (Cons x ops)
  have rest: "sorted_wrt (<) (admitted_ids ops (exec x g))"
    by (rule Cons)
  show ?case
  proof (cases "admitted_ids [x] g = []")
    case True
    with rest show ?thesis
      by (subst admitted_ids_Cons) simp
  next
    case False
    then obtain rn ttype est descr now where x: "x = Admit rn ttype est descr now"
      by (cases x) simp_all
    from False have one: "admitted_ids [x] g = [task_counter (scheduler g)]"
      and g: "get_room (scheduler g) rn \<noteq> None"
      unfolding x by (auto simp: admitted_ids_Admit simp del: admitted_ids.simps(2) split: if_splits)
    from g admit_counts [of rn ttype est descr now "scheduler g"]
    have c: "task_counter (scheduler (exec x g)) = task_counter (scheduler g) + 1"
      unfolding x by simp
    have "task_counter (scheduler g) < j" if "j \<in> set (admitted_ids ops (exec x g))" for j
      using admitted_ids_bounds [OF that] c by simp
    with rest one show ?thesis
      by (subst admitted_ids_Cons) simp
  qed
qed

lemma demo_ids: "admitted_ids demo_ops (idle_gui HotelScheduler) = [1, 2, 3, 4]"
  by (simp add: demo_ops_def eval_simps)

lemma demo_after_clear_ids:
  "admitted_ids [Admit ''702'' ''Concierge'' 15 ''taxi'' 9] (exec ClearAll demo_gui) = [5]"
proof -
  have "''702'' \<in> dom (rooms demo)"
    unfolding demo_rooms_dom by (simp add: catalog_702 domIff)
  then have "get_room (clear_all_tasks demo) ''702'' \<noteq> None"
    by (simp add: get_room_def str_replace_def clear_all_tasks_def domIff)
  moreover have "scheduler (exec ClearAll demo_gui) = clear_all_tasks demo"
    using demo_gui_fields by simp
  moreover have "task_counter (clear_all_tasks demo) = 5"
    using demo_lists by (simp add: clear_all_tasks_def)
  ultimately show ?thesis
    by (simp add: admitted_ids_Admit del: admitted_ids.simps(2))
qed

text \<open>
  Claim C8. \<^verbatim>\<open>clear_all_tasks\<close> empties the pending and the completed list and changes
  nothing else: the task counter, the store of task objects, the rooms with their histories,
  the policy selector and the quantum are as before, and so are the flag and the threads of
  the application. Since the counter is not reset, an identifier handed out after the
  clearing is strictly greater than every identifier handed out before it, whatever
  operations ran before and after, the steps of the dispatch threads included; the
  identifiers of a whole run are strictly increasing, so none is used twice.
\<close>

theorem clear_all_keeps_counter:
  "tasks (clear_all_tasks s) = [] \<and>
   completed_tasks (clear_all_tasks s) = [] \<and>
   clear_all_tasks s = s\<lparr>tasks := [], completed_tasks := []\<rparr> \<and>
   task_counter (clear_all_tasks s) = task_counter s \<and>
   heap (clear_all_tasks s) = heap s \<and>
   next_ref (clear_all_tasks s) = next_ref s \<and>
   rooms (clear_all_tasks s) = rooms s \<and>
   is_running (clear_all_tasks s) = is_running s \<and>
   current_algorithm (clear_all_tasks s) = current_algorithm s \<and>
   time_quantum (clear_all_tasks s) = time_quantum s \<and>
   exec ClearAll g = g\<lparr>scheduler := clear_all_tasks (scheduler g)\<rparr> \<and>
   is_simulation_running (exec ClearAll g) = is_simulation_running g \<and>
   threads (exec ClearAll g) = threads g \<and>
   (i \<in> set (admitted_ids before g) \<and>
    j \<in> set (admitted_ids after (exec ClearAll (run before g))) \<longrightarrow> i < j) \<and>
   sorted_wrt (<) (admitted_ids (before @ ClearAll # after) g) \<and>
   distinct (admitted_ids (before @ ClearAll # after) g)"
proof -
  have frame: "tasks (clear_all_tasks s) = []" "completed_tasks (clear_all_tasks s) = []"
    "clear_all_tasks s = s\<lparr>tasks := [], completed_tasks := []\<rparr>"
    "task_counter (clear_all_tasks s) = task_counter s"
    "heap (clear_all_tasks s) = heap s"
    "next_ref (clear_all_tasks s) = next_ref s"
    "rooms (clear_all_tasks s) = rooms s"
    "is_running (clear_all_tasks s) = is_running s"
    "current_algorithm (clear_all_tasks s) = current_algorithm s"
    "time_quantum (clear_all_tasks s) = time_quantum s"
    by (simp_all add: clear_all_tasks_def)
  have app: "exec ClearAll g = g\<lparr>scheduler := clear_all_tasks (scheduler g)\<rparr>"
    "is_simulation_running (exec ClearAll g) = is_simulation_running g"
    "threads (exec ClearAll g) = threads g"
    by simp_all
  have ids: "i < j"
    if i: "i \<in> set (admitted_ids before g)"
      and j: "j \<in> set (admitted_ids after (exec ClearAll (run before g)))"
  proof -
    from admitted_ids_bounds [OF i] have "i < task_counter (scheduler (run before g))" by simp
    moreover from admitted_ids_bounds [OF j]
    have "task_counter (scheduler (exec ClearAll (run before g))) \<le> j" by simp
    then have "task_counter (scheduler (run before g)) \<le> j" by (simp add: clear_all_tasks_def)
    ultimately show ?thesis by simp
  qed
  have inc: "sorted_wrt (<) (admitted_ids (before @ ClearAll # after) g)"
    by (rule admitted_ids_increasing)
  then have dis: "distinct (admitted_ids (before @ ClearAll # after) g)"
    by (simp add: strict_sorted_iff)
  from frame app ids inc dis show ?thesis by blast
qed

theorem clear_all_keeps_counter_witness:
  "admitted_ids demo_ops (idle_gui HotelScheduler) = [1, 2, 3, 4] \<and>
   admitted_ids [Admit ''702'' ''Concierge'' 15 ''taxi'' 9]
     (exec ClearAll (run demo_ops (idle_gui HotelScheduler))) = [5] \<and>
   (4::int) < 5 \<and>
   tasks (clear_all_tasks demo) = [] \<and> completed_tasks (clear_all_tasks demo) = [] \<and>
   task_counter (clear_all_tasks demo) = 5"
proof -
  have a: "(4::int) \<in> set (admitted_ids demo_ops (idle_gui HotelScheduler))"
    by (simp add: demo_ids)
  have d: "admitted_ids [Admit ''702'' ''Concierge'' 15 ''taxi'' 9]
     (exec ClearAll (run demo_ops (idle_gui HotelScheduler))) = [5]"
    using demo_after_clear_ids by (simp only: demo_gui_def)
  then have b: "(5::int) \<in> set (admitted_ids [Admit ''702'' ''Concierge'' 15 ''taxi'' 9]
                               (exec ClearAll (run demo_ops (idle_gui HotelScheduler))))"
    by simp
  from clear_all_keeps_counter [of demo "idle_gui HotelScheduler" 4 demo_ops 5
      "[Admit ''702'' ''Concierge'' 15 ''taxi'' 9]"] a b
  have lt: "(4::int) < 5" by blast
  from clear_all_keeps_counter [of demo "idle_gui HotelScheduler" 4 demo_ops 5 "[]"]
  have "tasks (clear_all_tasks demo) = [] \<and> completed_tasks (clear_all_tasks demo) = [] \<and>
        task_counter (clear_all_tasks demo) = task_counter demo"
    by blast
  with demo_lists have c: "tasks (clear_all_tasks demo) = [] \<and>
        completed_tasks (clear_all_tasks demo) = [] \<and> task_counter (clear_all_tasks demo) = 5"
    by simp
  from demo_ids d lt c show ?thesis by blast
qed

subsection \<open>Room lookup with the "Room " prefix\<close>

lemma replace_from_no_R:
  "CHR ''R'' \<notin> set r \<Longrightarrow> replace_from ''Room '' new r = r"
  by (induction r) auto

lemma str_replace_Room_prefix:
  assumes "CHR ''R'' \<notin> set r"
  shows "str_replace (''Room '' @ r) ''Room '' [] = r \<and> str_replace r ''Room '' [] = r"
  using assms by (simp add: str_replace_def replace_from_no_R)

lemma catalog_key_no_R:
  assumes "key \<in> dom (initialize_rooms Map.empty)"
  shows "CHR ''R'' \<notin> set key"
proof
  assume "CHR ''R'' \<in> set key"
  with catalog_key_digits [OF assms] have "CHR ''R'' \<in> set ''0123456789''" by blast
  then show False by simp
qed

text \<open>
  Claim C10. \<^verbatim>\<open>get_room\<close> removes "Room " from its argument before the lookup (every
  occurrence; the identifiers of the catalog are digit strings, so for "Room " followed by
  an identifier of the catalog that is the leading prefix and nothing else). Hence, in
  every scheduler whose rooms are rooms of the catalog, for every identifier \<open>r\<close> of a room
  the lookup of "Room " followed by \<open>r\<close> finds the room that the lookup of \<open>r\<close> finds,
  both admissions succeed, both append the new task to the history of that same room, and
  the two tasks differ in nothing but the room number string they record.
\<close>

theorem room_prefix_lookup:
  assumes "dom (rooms s) \<subseteq> dom (initialize_rooms Map.empty)"
    and "r \<in> dom (rooms s)"
  shows "str_replace (''Room '' @ r) ''Room '' [] = r \<and>
         get_room s (''Room '' @ r) = get_room s r \<and>
         get_room s r = rooms s r \<and>
         get_room s (''Room '' @ r) \<noteq> None \<and>
         fst (add_task (''Room '' @ r) ttype est descr now s) = Inr (next_ref s) \<and>
         fst (add_task r ttype est descr now s) = Inr (next_ref s) \<and>
         rooms (snd (add_task (''Room '' @ r) ttype est descr now s)) =
           rooms (snd (add_task r ttype est descr now s)) \<and>
         heap (snd (add_task (''Room '' @ r) ttype est descr now s)) (next_ref s) =
           (heap (snd (add_task r ttype est descr now s)) (next_ref s))
             \<lparr>room_number := ''Room '' @ r\<rparr>"
proof -
  from assms have "r \<in> dom (initialize_rooms Map.empty)" by blast
  then have noR: "CHR ''R'' \<notin> set r" by (rule catalog_key_no_R)
  note sr = str_replace_Room_prefix [OF noR]
  from assms(2) obtain rm where rm: "rooms s r = Some rm" by blast
  from sr rm have g1: "get_room s (''Room '' @ r) = Some rm" and g2: "get_room s r = Some rm"
    by (simp_all add: get_room_def)
  note k1 = add_task_known [OF g1, of ttype est descr now]
  note k2 = add_task_known [OF g2, of ttype est descr now]
  note sr1 = sr [THEN conjunct1] and sr2 = sr [THEN conjunct2]
  have c0: "get_room s (''Room '' @ r) = get_room s r" "get_room s r = rooms s r"
    "get_room s (''Room '' @ r) \<noteq> None"
    unfolding g1 g2 rm by simp_all
  have c1: "fst (add_task (''Room '' @ r) ttype est descr now s) = Inr (next_ref s)"
    unfolding k1 by simp
  have c2: "fst (add_task r ttype est descr now s) = Inr (next_ref s)"
    unfolding k2 by simp
  have c3: "rooms (snd (add_task (''Room '' @ r) ttype est descr now s)) =
              rooms (snd (add_task r ttype est descr now s))"
    unfolding k1 k2 sr1 sr2 by simp
  have c4: "heap (snd (add_task (''Room '' @ r) ttype est descr now s)) (next_ref s) =
              (heap (snd (add_task r ttype est descr now s)) (next_ref s))
                \<lparr>room_number := ''Room '' @ r\<rparr>"
    unfolding k1 k2 by simp
  from sr1 c0 c1 c2 c3 c4 show ?thesis by blast
qed

theorem room_prefix_lookup_witness:
  "dom (rooms HotelScheduler) \<subseteq> dom (initialize_rooms Map.empty) \<and>
   ''405'' \<in> dom (rooms HotelScheduler) \<and>
   str_replace ''Room 405'' ''Room '' [] = ''405'' \<and>
   get_room HotelScheduler ''Room 405'' = get_room HotelScheduler ''405'' \<and>
   get_room HotelScheduler ''Room 405'' = Some (new_room MidRangeRoom ''405'' 4) \<and>
   fst (add_task ''Room 405'' ''Premium Housekeeping'' 25 ''linen'' 2 HotelScheduler) = Inr 0 \<and>
   fst (add_task ''405'' ''Premium Housekeeping'' 25 ''linen'' 2 HotelScheduler) = Inr 0"
proof -
  have a: "dom (rooms HotelScheduler) \<subseteq> dom (initialize_rooms Map.empty)"
    by (simp add: HotelScheduler_def)
  have b: "''405'' \<in> dom (rooms HotelScheduler)"
    by (simp add: HotelScheduler_def catalog_405 domIff)
  have c: "rooms HotelScheduler ''405'' = Some (new_room MidRangeRoom ''405'' 4)"
    by (simp add: HotelScheduler_def catalog_405)
  have n: "next_ref HotelScheduler = 0"
    by (simp add: HotelScheduler_def)
  from room_prefix_lookup [OF a b, of "''Premium Housekeeping''" 25 "''linen''" 2] a b c n
  show ?thesis by simp
qed


end
